theory Spec2Isabelle
  imports Main "HOL-Library.AList"
begin

section \<open>Python strings\<close>

text \<open>
  A Python \<open>str\<close> is modelled by the list of its UTF-8 bytes. The source searches only
  for ASCII patterns (\<open>{\<close>, \<open>}\<close>, \<open>title\<close>) and slices at the positions found, which
  gives the same text on bytes as on code points.
\<close>

fun startswith :: "string \<Rightarrow> string \<Rightarrow> bool" where
  "startswith s [] = True"
| "startswith [] (p # ps) = False"
| "startswith (c # cs) (p # ps) = (c = p \<and> startswith cs ps)"

text \<open>\<open>py_in sub s\<close> is Python's \<open>sub in s\<close> on strings.\<close>

fun py_in :: "string \<Rightarrow> string \<Rightarrow> bool" where
  "py_in sub [] = (sub = [])"
| "py_in sub (c # cs) = (startswith (c # cs) sub \<or> py_in sub cs)"

text \<open>\<open>s.find(c)\<close> and \<open>s.rfind(c)\<close> for a one-character pattern: the lowest and the
  highest index of \<open>c\<close>, or \<open>-1\<close>.\<close>

fun py_find :: "string \<Rightarrow> char \<Rightarrow> int" where
  "py_find [] c = - 1"
| "py_find (x # xs) c =
     (if x = c then 0 else (let i = py_find xs c in if i < 0 then - 1 else i + 1))"

fun py_rfind :: "string \<Rightarrow> char \<Rightarrow> int" where
  "py_rfind [] c = - 1"
| "py_rfind (x # xs) c =
     (let i = py_rfind xs c in if 0 \<le> i then i + 1 else if x = c then 0 else - 1)"

text \<open>\<open>s[i:j]\<close>: a negative bound counts from the end, and both bounds are clamped to
  the string.\<close>

definition py_slice :: "'a list \<Rightarrow> int \<Rightarrow> int \<Rightarrow> 'a list" where
  "py_slice xs i j =
     (let n = int (length xs);
          lo = (if i < 0 then max 0 (i + n) else min i n);
          hi = (if j < 0 then max 0 (j + n) else min j n)
      in take (nat (hi - lo)) (drop (nat lo) xs))"

section \<open>The JSON decoder\<close>

text \<open>
  \<open>json.loads\<close> of the standard library, after \<open>json/decoder.py\<close> and
  \<open>json/scanner.py\<close>. A number keeps its lexeme (\<open>NaN\<close>, \<open>Infinity\<close> and
  \<open>-Infinity\<close> included), since no conversion to \<open>int\<close> or \<open>float\<close> matters below;
  \<open>None\<close> stands for the \<open>JSONDecodeError\<close> (a \<open>ValueError\<close>) that the decoder raises.
  The interpreter's recursion limit on deeply nested documents is outside the model.
\<close>

datatype json =
    JNull
  | JBool bool
  | JNum string
  | JString string
  | JArray "json list"
  | JObject "(string \<times> json) list"

definition is_ws :: "char \<Rightarrow> bool" where
  "is_ws c = (c = CHR '' '' \<or> c = CHR 0x09 \<or> c = CHR 0x0A \<or> c = CHR 0x0D)"

definition skip_ws :: "string \<Rightarrow> string" where
  "skip_ws s = dropWhile is_ws s"

text \<open>\<open>ord(c)\<close>, for a byte.\<close>

definition ord :: "char \<Rightarrow> int" where
  "ord c = of_char c"

definition is_digit :: "char \<Rightarrow> bool" where
  "is_digit c = (ord (CHR ''0'') \<le> ord c \<and> ord c \<le> ord (CHR ''9''))"

definition hex_val :: "char \<Rightarrow> int option" where
  "hex_val c =
     (if is_digit c then Some (ord c - ord (CHR ''0''))
      else if ord (CHR ''a'') \<le> ord c \<and> ord c \<le> ord (CHR ''f'')
        then Some (ord c - ord (CHR ''a'') + 10)
      else if ord (CHR ''A'') \<le> ord c \<and> ord c \<le> ord (CHR ''F'')
        then Some (ord c - ord (CHR ''A'') + 10)
      else None)"

definition decode_uXXXX :: "string \<Rightarrow> int option" where
  "decode_uXXXX s =
     (case map hex_val (take 4 s) of
        [Some a, Some b, Some c, Some d] \<Rightarrow> Some (((a * 16 + b) * 16 + c) * 16 + d)
      | _ \<Rightarrow> None)"

text \<open>\<open>chr(n)\<close>, as UTF-8 bytes.\<close>

definition chr :: "int \<Rightarrow> string" where
  "chr n =
     (if n < 0x80 then [char_of n]
      else if n < 0x800 then [char_of (0xC0 + n div 64), char_of (0x80 + n mod 64)]
      else if n < 0x10000 then
        [char_of (0xE0 + n div 4096), char_of (0x80 + n div 64 mod 64),
         char_of (0x80 + n mod 64)]
      else
        [char_of (0xF0 + n div 262144), char_of (0x80 + n div 4096 mod 64),
         char_of (0x80 + n div 64 mod 64), char_of (0x80 + n mod 64)])"

definition BACKSLASH :: "char \<Rightarrow> char option" where
  "BACKSLASH esc =
     (if esc = CHR 0x22 then Some (CHR 0x22)
      else if esc = CHR 0x5C then Some (CHR 0x5C)
      else if esc = CHR ''/'' then Some (CHR ''/'')
      else if esc = CHR ''b'' then Some (CHR 0x08)
      else if esc = CHR ''f'' then Some (CHR 0x0C)
      else if esc = CHR ''n'' then Some (CHR 0x0A)
      else if esc = CHR ''r'' then Some (CHR 0x0D)
      else if esc = CHR ''t'' then Some (CHR 0x09)
      else None)"

text \<open>\<open>scanstring\<close> reads a string literal from just after its opening quote and
  returns the decoded string with the input that follows the closing quote. Unescaped
  control characters are refused (\<open>strict\<close> is the default).\<close>

fun scanstring :: "string \<Rightarrow> (string \<times> string) option" where
  "scanstring [] = None"
| "scanstring (c # cs) =
     (if c = CHR 0x22 then Some ([], cs)
      else if c = CHR 0x5C then
        (case cs of
           [] \<Rightarrow> None
         | esc # es \<Rightarrow>
             if esc \<noteq> CHR ''u'' then
               (case BACKSLASH esc of
                  None \<Rightarrow> None
                | Some ch \<Rightarrow> map_option (\<lambda>(str, r). (ch # str, r)) (scanstring es))
             else
               (case decode_uXXXX es of
                  None \<Rightarrow> None
                | Some uni \<Rightarrow>
                    if 0xD800 \<le> uni \<and> uni \<le> 0xDBFF
                       \<and> take 2 (drop 4 es) = [CHR 0x5C, CHR ''u''] then
                      (case decode_uXXXX (drop 6 es) of
                         None \<Rightarrow> None
                       | Some uni2 \<Rightarrow>
                           if 0xDC00 \<le> uni2 \<and> uni2 \<le> 0xDFFF then
                             map_option
                               (\<lambda>(str, r).
                                  (chr (0x10000 + ((uni - 0xD800) * 1024 + (uni2 - 0xDC00)))
                                     @ str, r))
                               (scanstring (drop 10 es))
                           else
                             map_option (\<lambda>(str, r). (chr uni @ str, r))
                               (scanstring (drop 4 es)))
                    else
                      map_option (\<lambda>(str, r). (chr uni @ str, r)) (scanstring (drop 4 es))))
      else if ord c < 0x20 then None
      else map_option (\<lambda>(str, r). (c # str, r)) (scanstring cs))"

text \<open>
  \<open>NUMBER_RE.match\<close>, for the pattern
  \<^verbatim>\<open>(-?(?:0|[1-9]\d*))(\.\d+)?([eE][-+]?\d+)?\<close>: each part returns what it matched
  and the input after it; the fraction and the exponent match the empty string when
  they are absent. The whole is the longest prefix that is a JSON number, as the lexeme
  and the input after it. An integer of more than 4300 digits is refused by \<open>int\<close>.
\<close>

definition digits :: "string \<Rightarrow> string \<times> string" where
  "digits s = (takeWhile is_digit s, dropWhile is_digit s)"

definition integer_part :: "string \<Rightarrow> (string \<times> string) option" where
  "integer_part s =
     (let (sign, s1) =
            (case s of [] \<Rightarrow> ([], s)
             | c # cs \<Rightarrow> if c = CHR ''-'' then ([c], cs) else ([], s))
      in case s1 of
           [] \<Rightarrow> None
         | d # ds \<Rightarrow>
             if \<not> is_digit d then None
             else if d = CHR ''0'' then Some (sign @ [d], ds)
             else let (more, r) = digits ds in Some (sign @ d # more, r))"

definition frac_part :: "string \<Rightarrow> string \<times> string" where
  "frac_part s =
     (case s of
        [] \<Rightarrow> ([], s)
      | p # fs \<Rightarrow>
          let (ds, r) = digits fs
          in if p = CHR ''.'' \<and> ds \<noteq> [] then (p # ds, r) else ([], s))"

definition exp_part :: "string \<Rightarrow> string \<times> string" where
  "exp_part s =
     (case s of
        [] \<Rightarrow> ([], s)
      | e # es \<Rightarrow>
          if e = CHR ''e'' \<or> e = CHR ''E'' then
            (let (sg, es') =
                   (case es of [] \<Rightarrow> ([], es)
                    | g # gs \<Rightarrow>
                        if g = CHR ''+'' \<or> g = CHR ''-'' then ([g], gs) else ([], es));
                 (ds, r) = digits es'
             in if ds \<noteq> [] then (e # sg @ ds, r) else ([], s))
          else ([], s))"

definition match_number :: "string \<Rightarrow> (string \<times> string) option" where
  "match_number s =
     (case integer_part s of
        None \<Rightarrow> None
      | Some (integer, s1) \<Rightarrow>
          let (frac, s2) = frac_part s1;
              (exp, s3) = exp_part s2
          in if frac = [] \<and> exp = []
                \<and> 4300 < length (filter is_digit integer) then None
             else Some (integer @ frac @ exp, s3))"

text \<open>\<open>dict(pairs)\<close>: a later pair with the same key replaces the value and keeps the
  position of the first.\<close>

definition dict :: "(string \<times> json) list \<Rightarrow> (string \<times> json) list" where
  "dict pairs = foldl (\<lambda>d (k, v). AList.update k v d) [] pairs"

lemma length_skip_ws: "length (skip_ws s) \<le> length s"
  by (simp add: skip_ws_def length_dropWhile_le)

lemma skip_ws_Cons_length: "skip_ws s = c # r \<Longrightarrow> length r < length s"
  using length_skip_ws [of s] by simp

lemma scanstring_shorter_aux:
  "length s \<le> n \<Longrightarrow> scanstring s = Some (str, r) \<Longrightarrow> length r < length s"
proof (induction n arbitrary: s str r)
  case 0
  then show ?case by simp
next
  case (Suc n)
  show ?case
  proof (cases s)
    case Nil
    with Suc.prems show ?thesis by simp
  next
    case (Cons c cs)
    have IH: "length r' < length t" if "scanstring t = Some (str', r')" "length t \<le> n"
      for t str' r'
      using Suc.IH that by blast
    from Suc.prems Cons show ?thesis
      by (auto split: if_splits list.splits option.splits dest!: IH)
  qed
qed

lemma scanstring_shorter: "scanstring s = Some (str, r) \<Longrightarrow> length r < length s"
  using scanstring_shorter_aux [of s "length s"] by simp

text \<open>
  \<open>scan_once\<close> reads one value at the head of the input; \<open>JSONArray_loop\<close> and
  \<open>JSONObject_loop\<close> are the \<open>while True\<close> loops of \<open>JSONArray\<close> and \<open>JSONObject\<close>,
  entered at the first element and just after the opening quote of the first key. Each
  returns the value with the input that follows it. The tests \<open>length r < length s\<close> on
  the result of a nested call let the termination proof go through; they always hold
  (\<open>scan_once_shorter\<close> below).
\<close>

function scan_once :: "string \<Rightarrow> (json \<times> string) option"
  and JSONArray_loop :: "string \<Rightarrow> json list \<Rightarrow> (json list \<times> string) option"
  and JSONObject_loop ::
    "string \<Rightarrow> (string \<times> json) list \<Rightarrow> ((string \<times> json) list \<times> string) option"
where
  "scan_once s =
     (case s of
        [] \<Rightarrow> None
      | c # cs \<Rightarrow>
          if c = CHR 0x22 then map_option (\<lambda>(str, r). (JString str, r)) (scanstring cs)
          else if c = CHR ''{'' then
            (case skip_ws cs of
               [] \<Rightarrow> None
             | d # ds \<Rightarrow>
                 if d = CHR ''}'' then Some (JObject [], ds)
                 else if d \<noteq> CHR 0x22 then None
                 else map_option (\<lambda>(pairs, r). (JObject (dict pairs), r))
                        (JSONObject_loop ds []))
          else if c = CHR ''['' then
            (case skip_ws cs of
               [] \<Rightarrow> None
             | d # ds \<Rightarrow>
                 if d = CHR '']'' then Some (JArray [], ds)
                 else map_option (\<lambda>(values, r). (JArray values, r))
                        (JSONArray_loop (d # ds) []))
          else if startswith s ''null'' then Some (JNull, drop 4 s)
          else if startswith s ''true'' then Some (JBool True, drop 4 s)
          else if startswith s ''false'' then Some (JBool False, drop 5 s)
          else
            (case match_number s of
               Some (lexeme, r) \<Rightarrow> Some (JNum lexeme, r)
             | None \<Rightarrow>
                 if startswith s ''NaN'' then Some (JNum ''NaN'', drop 3 s)
                 else if startswith s ''Infinity'' then Some (JNum ''Infinity'', drop 8 s)
                 else if startswith s ''-Infinity'' then Some (JNum ''-Infinity'', drop 9 s)
                 else None))"
| "JSONArray_loop s values =
     (case scan_once s of
        None \<Rightarrow> None
      | Some (v, r) \<Rightarrow>
          if \<not> length r < length s then None
          else
            (case skip_ws r of
               [] \<Rightarrow> None
             | c # r1 \<Rightarrow>
                 if c = CHR '']'' then Some (values @ [v], r1)
                 else if c \<noteq> CHR '','' then None
                 else JSONArray_loop (skip_ws r1) (values @ [v])))"
| "JSONObject_loop s pairs =
     (case scanstring s of
        None \<Rightarrow> None
      | Some (key, r) \<Rightarrow>
          (case skip_ws r of
             [] \<Rightarrow> None
           | c # r1 \<Rightarrow>
               if c \<noteq> CHR '':'' then None
               else
                 (case scan_once (skip_ws r1) of
                    None \<Rightarrow> None
                  | Some (v, r2) \<Rightarrow>
                      if \<not> length r2 < length (skip_ws r1) then None
                      else
                        (case skip_ws r2 of
                           [] \<Rightarrow> None
                         | d # r3 \<Rightarrow>
                             if d = CHR ''}'' then Some (pairs @ [(key, v)], r3)
                             else if d \<noteq> CHR '','' then None
                             else
                               (case skip_ws r3 of
                                  [] \<Rightarrow> None
                                | q # r4 \<Rightarrow>
                                    if q \<noteq> CHR 0x22 then None
                                    else JSONObject_loop r4 (pairs @ [(key, v)]))))))"
  by pat_completeness auto
termination
  apply (relation "measure (\<lambda>x. case x of
                    Inl s \<Rightarrow> 2 * length s
                  | Inr (Inl (s, values)) \<Rightarrow> 2 * length s + 1
                  | Inr (Inr (s, pairs)) \<Rightarrow> 2 * length s + 1)")
  subgoal by simp
  subgoal for s c cs d ds
    using skip_ws_Cons_length [of cs d ds] by simp
  subgoal for s c cs d ds
    using length_skip_ws [of cs] by simp
  subgoal by simp
  subgoal for s "values" x v r c r1
    using skip_ws_Cons_length [of r c r1] length_skip_ws [of r1] by simp
  subgoal for s pairs x key r c r1
    using scanstring_shorter [of s key r] skip_ws_Cons_length [of r c r1]
      length_skip_ws [of r1] by simp
  subgoal for s pairs x key r c r1 y v r2 d r3 q r4
    using scanstring_shorter [of s key r] skip_ws_Cons_length [of r c r1]
      length_skip_ws [of r1] skip_ws_Cons_length [of r2 d r3]
      skip_ws_Cons_length [of r3 q r4] by simp
  done

declare scan_once.simps [simp del] JSONArray_loop.simps [simp del]
  JSONObject_loop.simps [simp del]

text \<open>\<open>JSONDecoder.decode\<close>: leading whitespace, one value, trailing whitespace,
  nothing else (\<open>Extra data\<close> otherwise).\<close>

definition json_loads :: "string \<Rightarrow> json option" where
  "json_loads s =
     (case scan_once (skip_ws s) of
        None \<Rightarrow> None
      | Some (obj, r) \<Rightarrow> if skip_ws r = [] then Some obj else None)"

section \<open>Messages, agents and the run of a team\<close>

text \<open>
  What \<open>team.run_stream\<close> yields: a chat message with a source and a text content, an
  event whose \<open>content\<close> is not a \<open>str\<close>, and the closing \<open>TaskResult\<close>, which has
  no \<open>content\<close> attribute.
\<close>

datatype stream_item =
    TextMessage string string
  | NonTextEvent string
  | TaskResult

text \<open>\<open>hasattr(message, "content") and isinstance(message.content, str)\<close>.\<close>

fun str_content :: "stream_item \<Rightarrow> string option" where
  "str_content (TextMessage source content) = Some content"
| "str_content (NonTextEvent source) = None"
| "str_content TaskResult = None"

text \<open>
  The generation backend is a parameter: for the agent of a given name and the
  conversation so far it returns the text produced, or fails with a \<open>GenerationError\<close>.
  \<open>get_agent_team\<close> binds it to the five agents, in the order of the source.
\<close>

datatype generation_error = GenerationError string

type_synonym model_client = "string \<Rightarrow> stream_item list \<Rightarrow> generation_error + string"

record agent =
  name :: string
  produce :: "stream_item list \<Rightarrow> generation_error + string"

definition get_agent_team :: "model_client \<Rightarrow> agent list" where
  "get_agent_team model_client =
     map (\<lambda>n. \<lparr>name = n, produce = model_client n\<rparr>)
       [''Feedback_Classifier'', ''Bug_Analyst'', ''Feature_Extractor'',
        ''Ticket_Creator'', ''Quality_Critic'']"

datatype scheduler_state = Running | Approved | Exhausted

record deliberation =
  conversation :: "stream_item list"
  turns_taken :: nat
  state :: scheduler_state
  failure :: "generation_error option"

text \<open>
  Modelled from the spec: the DeliberationScheduler of section 4.3, which the source
  takes from the agent framework (\<open>RoundRobinGroupChat\<close> with
  \<open>TextMentionTermination\<close> and \<open>max_turns\<close>) and which is not under src/. On each
  turn the next stage in cyclic order is invoked with the full context; its output is
  appended and the turn counter incremented; an output containing the termination token
  ends the run as \<open>Approved\<close>; the counter reaching the cap ends it as \<open>Exhausted\<close>; a
  \<open>GenerationError\<close> aborts the run at once, as \<open>Exhausted\<close>, and is reported.
  \<open>deliberate\<close> is entered with the context and the number of turns taken so far. A team
  without participants takes no turn.
\<close>

function deliberate ::
  "agent list \<Rightarrow> string \<Rightarrow> nat \<Rightarrow> stream_item list \<Rightarrow> nat \<Rightarrow> deliberation" where
  "deliberate participants token max_turns ctx turns =
     (if participants = [] \<or> max_turns \<le> turns then
        \<lparr>conversation = ctx, turns_taken = turns, state = Exhausted, failure = None\<rparr>
      else
        let stage = participants ! (turns mod length participants) in
        case produce stage ctx of
          Inl e \<Rightarrow> \<lparr>conversation = ctx, turns_taken = turns, state = Exhausted, failure = Some e\<rparr>
        | Inr content \<Rightarrow>
            let ctx' = ctx @ [TextMessage (name stage) content] in
            if py_in token content then
              \<lparr>conversation = ctx', turns_taken = turns + 1, state = Approved, failure = None\<rparr>
            else deliberate participants token max_turns ctx' (turns + 1))"
  by pat_completeness auto
termination
  by (relation "measure (\<lambda>(participants, token, max_turns, ctx, turns). max_turns - turns)")
     auto

declare deliberate.simps [simp del]

text \<open>
  Modelled from the spec: \<open>team.run_stream(task=task_msg)\<close> (source line 138), as the
  items the caller iterates over and the error that ends the iteration, if any. The
  task is the first entry of the context and, as the framework documents for
  \<open>run_stream\<close>, the first item yielded, from source \<open>user\<close>; the stage outputs follow
  in order; a run that ends without error closes with the \<open>TaskResult\<close>.
\<close>

definition run_stream ::
  "agent list \<Rightarrow> string \<Rightarrow> nat \<Rightarrow> string \<Rightarrow> stream_item list \<times> generation_error option" where
  "run_stream participants token max_turns task =
     (let d = deliberate participants token max_turns [TextMessage ''user'' task] 0
      in case failure d of
           Some e \<Rightarrow> (conversation d, Some e)
         | None \<Rightarrow>
             (conversation d @ [TaskResult], None))"

section \<open>The pipeline for one item (\<open>process_single_item\<close>)\<close>

definition task_msg :: "string \<Rightarrow> string \<Rightarrow> string" where
  "task_msg row_id text =
     ''\<newline>    PROCESS THIS FEEDBACK (ID: '' @ row_id @ ''): '' @ [CHR 0x22] @ text @ [CHR 0x22]
     @ ''\<newline>    \<newline>    Pipeline:''
     @ ''\<newline>    1. Classifier: Categorize.''
     @ ''\<newline>    2. Bug_Analyst & Feature_Extractor: Extract details.''
     @ ''\<newline>    3. Ticket_Creator: Draft JSON.''
     @ ''\<newline>    4. Quality_Critic: Review.''
     @ ''\<newline>    \<newline>    Ticket_Creator: Output final JSON before approval.\<newline>    ''"

text \<open>\<open>"title" in data\<close>: a key of a dict, an element of a list, a substring of a
  string; on any other value Python raises \<open>TypeError\<close> (here \<open>None\<close>).\<close>

fun title_in :: "json \<Rightarrow> bool option" where
  "title_in (JObject d) = Some (map_of d ''title'' \<noteq> None)"
| "title_in (JArray xs) = Some (List.member xs (JString ''title''))"
| "title_in (JString s) = Some (py_in ''title'' s)"
| "title_in (JNum lexeme) = None"
| "title_in (JBool b) = None"
| "title_in JNull = None"

text \<open>
  The body of the loop for one text content (source lines 142 to 151): the value
  assigned to \<open>final_json\<close>, or \<open>None\<close> when the message leaves it as it is, which
  includes every exception swallowed by the bare \<open>except\<close>.
\<close>

definition candidate :: "string \<Rightarrow> json option" where
  "candidate content =
     (if py_in ''{'' content \<and> py_in ''title'' content then
        (let start = py_find content (CHR ''{'');
             end = py_rfind content (CHR ''}'') + 1;
             snippet = py_slice content start end
         in case json_loads snippet of
              None \<Rightarrow> None
            | Some data \<Rightarrow>
                (case title_in data of
                   None \<Rightarrow> None
                 | Some b \<Rightarrow> if b then Some data else None))
      else None)"

definition scan_message :: "json \<Rightarrow> stream_item \<Rightarrow> json" where
  "scan_message final_json message =
     (case str_content message of
        None \<Rightarrow> final_json
      | Some content \<Rightarrow>
          (case candidate content of None \<Rightarrow> final_json | Some data \<Rightarrow> data))"

text \<open>The \<open>async for\<close> loop over the items yielded.\<close>

fun scan_stream :: "json \<Rightarrow> stream_item list \<Rightarrow> json" where
  "scan_stream final_json [] = final_json"
| "scan_stream final_json (message # rest) = scan_stream (scan_message final_json message) rest"

text \<open>\<open>not final_json\<close>. The lexeme of a number is zero when its mantissa has no other
  digit than \<open>0\<close>; a float that underflows to zero is outside the model, and no number
  is ever assigned to \<open>final_json\<close> (\<open>title_in\<close> raises on it).\<close>

fun falsy :: "json \<Rightarrow> bool" where
  "falsy (JObject d) = (d = [])"
| "falsy (JArray xs) = (xs = [])"
| "falsy (JString s) = (s = [])"
| "falsy (JNum lexeme) =
     (lexeme \<notin> {''NaN'', ''Infinity'', ''-Infinity''}
      \<and> list_all (\<lambda>c. if is_digit c then c = CHR ''0'' else True)
            (takeWhile (\<lambda>c. c \<noteq> CHR ''e'' \<and> c \<noteq> CHR ''E'') lexeme))"
| "falsy (JBool b) = (\<not> b)"
| "falsy JNull = True"

definition fallback :: "string \<Rightarrow> json" where
  "fallback row_id =
     JObject
       [(''title'', JString (''Error Processing '' @ row_id)),
        (''category'', JString ''Error''),
        (''priority'', JString ''Low''),
        (''details'', JObject [(''error'', JString ''Agents did not produce valid JSON'')])]"

text \<open>
  \<open>process_single_item\<close>, with the backend as a further argument. An error that ends the
  stream is caught by the outer \<open>try\<close> and printed; \<open>final_json\<close> keeps what the loop
  had assigned.
\<close>

definition process_single_item :: "model_client \<Rightarrow> string \<Rightarrow> string \<Rightarrow> string \<Rightarrow> json" where
  "process_single_item model_client row_id source_type text =
     (let agents = get_agent_team model_client;
          (result_stream, err) = run_stream agents ''APPROVED'' 6 (task_msg row_id text);
          final_json = scan_stream (JObject []) result_stream
      in if falsy final_json then fallback row_id else final_json)"

section \<open>The batch (\<open>main\<close>)\<close>

text \<open>
  Step 1 of \<open>main\<close>, per file: either something in the \<open>try\<close> of lines 173 to 188
  raises (\<open>pd.read_csv\<close> on a missing, empty or malformed file), or the file gives a
  table: its column labels, as lines 179 and 180 leave them once
  \<open>columns.str.strip()\<close> has stripped them, and its rows, a row giving for a label the
  \<open>str\<close> of its cell.
\<close>

type_synonym row = "string \<Rightarrow> string"

datatype csv_file =
    ReadError string
  | DataFrame "string list" "row list"

record item =
  item_id :: string
  item_type :: string
  item_text :: string

record ticket =
  ticket_id :: string
  title :: json
  category :: json
  priority :: json
  details :: json
  source_id :: string
  source_type :: string

datatype warning = ReviewsMissingColumns | EmailsMissingColumns

text \<open>Step 2 of \<open>main\<close>: the items of the two tables and the warnings printed.\<close>

definition prepare_items :: "string list \<Rightarrow> row list \<Rightarrow> string list \<Rightarrow> row list \<Rightarrow> item list \<times> warning list" where
  "prepare_items review_columns reviews email_columns emails =
     (let (items1, warnings1) =
            (if ''review_id'' \<in> set review_columns \<and> ''review_text'' \<in> set review_columns then
               (map (\<lambda>r. \<lparr>item_id = r ''review_id'', item_type = ''Review'',
                           item_text = r ''review_text''\<rparr>) reviews, [])
             else ([], [ReviewsMissingColumns]));
          (items2, warnings2) =
            (if ''email_id'' \<in> set email_columns \<and> ''body'' \<in> set email_columns then
               (map (\<lambda>e. \<lparr>item_id = e ''email_id'', item_type = ''Email'',
                           item_text = e ''body''\<rparr>) emails, [])
             else ([], [EmailsMissingColumns]))
      in (items1 @ items2, warnings1 @ warnings2))"

text \<open>\<open>result.get(key, default)\<close>; a value that is not a dict has no \<open>get\<close>
  (\<open>AttributeError\<close>, here \<open>None\<close>).\<close>

fun py_get :: "json \<Rightarrow> string \<Rightarrow> json \<Rightarrow> json option" where
  "py_get (JObject d) key dflt =
     Some (case map_of d key of None \<Rightarrow> dflt | Some v \<Rightarrow> v)"
| "py_get (JArray xs) key dflt = None"
| "py_get (JString s) key dflt = None"
| "py_get (JNum lexeme) key dflt = None"
| "py_get (JBool b) key dflt = None"
| "py_get JNull key dflt = None"

text \<open>The ticket built from the result for one item. \<open>details\<close> holds the value that
  the source passes to \<open>json.dumps\<close>; its serialisation is not modelled.\<close>

definition make_ticket :: "item \<Rightarrow> json \<Rightarrow> ticket option" where
  "make_ticket it result =
     (case (py_get result ''title'' (JString ''Untitled''),
            py_get result ''category'' (JString ''Uncategorized''),
            py_get result ''priority'' (JString ''Low''),
            py_get result ''details'' (JObject [])) of
        (Some t, Some c, Some p, Some d) \<Rightarrow>
          Some \<lparr>ticket_id = ''TKT-'' @ item_id it, title = t, category = c, priority = p,
                details = d, source_id = item_id it, source_type = item_type it\<rparr>
      | _ \<Rightarrow> None)"

text \<open>
  Step 3 of \<open>main\<close>, the batch loop (the spec's \<open>run_all\<close>), from index \<open>i\<close> on.
  \<open>clients i\<close> is the backend as it answers during the run of the item of index
  \<open>i\<close>. \<open>None\<close>: an exception left the loop.
\<close>

fun run_all :: "(nat \<Rightarrow> model_client) \<Rightarrow> nat \<Rightarrow> item list \<Rightarrow> ticket list option" where
  "run_all clients i [] = Some []"
| "run_all clients i (it # items) =
     (let result = process_single_item (clients i) (item_id it) (item_type it) (item_text it)
      in case make_ticket it result of
           None \<Rightarrow> None
         | Some tk \<Rightarrow>
             (case run_all clients (i + 1) items of
                None \<Rightarrow> None
              | Some all_tickets \<Rightarrow> Some (tk # all_tickets)))"

text \<open>
  Step 4 of \<open>main\<close>: the three tables handed to \<open>to_csv\<close>, in the order of the source.
  The ticket table holds \<open>all_tickets\<close>, the metrics table the number of tickets, the
  log table its two column names and no row. Writing is a parameter: for a table it
  gives the exception that \<open>to_csv\<close> raises, if any (an \<open>OSError\<close>, or a
  \<open>UnicodeEncodeError\<close> on a text that holds a lone surrogate). Nothing catches it: it
  leaves \<open>main\<close>, and the tables after it are not written.
\<close>

datatype csv_output =
    GeneratedTickets "ticket list"
  | Metrics "(string \<times> nat) list"
  | ProcessingLog "string list"

definition save_results ::
  "(csv_output \<Rightarrow> string option) \<Rightarrow> ticket list \<Rightarrow> csv_output list \<times> string option" where
  "save_results to_csv all_tickets =
     (let df = GeneratedTickets all_tickets;
          metrics = Metrics [(''total_tickets'', length all_tickets)];
          log = ProcessingLog [''timestamp'', ''action'']
      in case to_csv df of
           Some e \<Rightarrow> ([], Some e)
         | None \<Rightarrow>
             (case to_csv metrics of
                Some e \<Rightarrow> ([df], Some e)
              | None \<Rightarrow>
                  (case to_csv log of
                     Some e \<Rightarrow> ([df, metrics], Some e)
                   | None \<Rightarrow> ([df, metrics, log], None))))"

text \<open>
  How \<open>main\<close> ends: it returns early because a file could not be loaded; an exception
  leaves the loop; an exception leaves step 4, after the warnings, the tickets and the
  tables written so far; or it returns at the end, with the warnings printed, the
  tickets and the three tables written.
\<close>

datatype outcome =
    LoadFailed
  | Crashed
  | SaveFailed "warning list" "ticket list" "csv_output list" string
  | Completed "warning list" "ticket list" "csv_output list"

definition main ::
  "(csv_output \<Rightarrow> string option) \<Rightarrow> (nat \<Rightarrow> model_client) \<Rightarrow> csv_file \<Rightarrow> csv_file
     \<Rightarrow> outcome" where
  "main to_csv clients reviews_csv emails_csv =
     (case reviews_csv of
        ReadError e \<Rightarrow> LoadFailed
      | DataFrame review_columns reviews \<Rightarrow>
          (case emails_csv of
             ReadError e \<Rightarrow> LoadFailed
           | DataFrame email_columns emails \<Rightarrow>
               (let (items, warnings) =
                      prepare_items review_columns reviews email_columns emails
                in case run_all clients 0 items of
                     None \<Rightarrow> Crashed
                   | Some all_tickets \<Rightarrow>
                       (case save_results to_csv all_tickets of
                          (written, Some e) \<Rightarrow> SaveFailed warnings all_tickets written e
                        | (written, None) \<Rightarrow> Completed warnings all_tickets written))))"

section \<open>The extractor in the words of the specification\<close>

text \<open>
  Section 4.2 of the specification: locate the first \<open>{\<close> and the last \<open>}\<close> in the
  content; if both exist and the substring between them parses as valid JSON containing
  a \<open>title\<close> field, it is a candidate. \<open>between\<close> is that substring, empty when no
  \<open>}\<close> follows the first \<open>{\<close>.
\<close>

definition between :: "string \<Rightarrow> string" where
  "between content =
     rev (dropWhile (\<lambda>c. c \<noteq> CHR ''}'') (rev (dropWhile (\<lambda>c. c \<noteq> CHR ''{'') content)))"

definition spec_extract :: "string \<Rightarrow> json option" where
  "spec_extract content =
     (if CHR ''{'' \<in> set content \<and> CHR ''}'' \<in> set content then
        (case json_loads (between content) of
           Some (JObject d) \<Rightarrow> if map_of d ''title'' \<noteq> None then Some (JObject d) else None
         | _ \<Rightarrow> None)
      else None)"

text \<open>The candidate of an item of the stream, if it has a text content.\<close>

definition message_candidate :: "stream_item \<Rightarrow> json option" where
  "message_candidate message =
     (case str_content message of None \<Rightarrow> None | Some content \<Rightarrow> candidate content)"

section \<open>Scripted backends\<close>

text \<open>A backend that answers from a script: its answer on turn \<open>k\<close> is the \<open>k\<close>-th
  entry, whatever the agent, and it fails once the script is exhausted.\<close>

definition scripted :: "(generation_error + string) list \<Rightarrow> model_client" where
  "scripted outs n ctx =
     (if length ctx - 1 < length outs then outs ! (length ctx - 1)
      else Inl (GenerationError ''end of script''))"

text \<open>Six turns in which no stage writes an object with a \<open>title\<close>.\<close>

definition six_turns :: "(generation_error + string) list" where
  \<open>six_turns =
     [Inr ''{"category": "Complaint", "priority": "Medium"}'',
      Inr ''{"status": "skipped"}'',
      Inr ''{"status": "skipped"}'',
      Inr ''I could not build the ticket.'',
      Inr ''The JSON is missing. Please fix.'',
      Inr ''{"category": "Complaint", "priority": "Medium"}'']\<close>

text \<open>Six turns with two drafts of the ticket and a malformed restatement between
  them.\<close>

definition two_drafts :: "(generation_error + string) list" where
  \<open>two_drafts =
     [Inr ''{"category": "Bug", "priority": "High"}'',
      Inr ''{"steps_to_reproduce": ["open app"]}'',
      Inr ''{"status": "skipped"}'',
      Inr ''{"title": "First draft", "category": "Bug", "priority": "Low"}'',
      Inr ''Priority too low. Suggested: {"title": "First draft", "priority": }'',
      Inr ''{"title": "Second draft", "category": "Bug", "priority": "High"}'']\<close>

text \<open>A JSON object whose key is \<open>title\<close> written with an escape: the text
  \<open>title\<close> does not occur in it.\<close>

definition escaped_title :: string where
  \<open>escaped_title = ''{"'' @ [CHR 0x5C] @ ''u0074itle": "x"}''\<close>

text \<open>The scenario of the specification for item \<open>R1\<close>: five stage outputs, the
  last one the approval.\<close>

definition r1_script :: "(generation_error + string) list" where
  \<open>r1_script =
     [Inr ''{"category":"Bug","priority":"High"}'',
      Inr ''{"steps_to_reproduce":["open app","tap login"]}'',
      Inr ''{"status":"skipped"}'',
      Inr ''{"title":"Login crash","category":"Bug","priority":"High","details":{"steps":["open app","tap login"]}}'',
      Inr ''APPROVED'']\<close>

text \<open>Two items, a run whose fifth stage fails after the ticket was drafted, and a run
  whose ticket has no category and a priority outside the enumeration.\<close>

definition item_R1 :: item where
  "item_R1 = \<lparr>item_id = ''R1'', item_type = ''Review'', item_text = ''App crashes on login''\<rparr>"

definition item_E7 :: item where
  "item_E7 = \<lparr>item_id = ''E7'', item_type = ''Email'', item_text = ''Too many ads''\<rparr>"

definition failing_script :: "(generation_error + string) list" where
  \<open>failing_script =
     [Inr ''{"category":"Bug","priority":"High"}'',
      Inr ''{"steps_to_reproduce":["open app","tap login"]}'',
      Inr ''{"status":"skipped"}'',
      Inr ''{"title":"Login crash","category":"Bug","priority":"High"}'',
      Inl (GenerationError ''timeout'')]\<close>

definition urgent_script :: "(generation_error + string) list" where
  \<open>urgent_script =
     [Inr ''{"category":"Feature Request","priority":"Urgent"}'',
      Inr ''{"status":"skipped"}'',
      Inr ''{"requested_feature":"dark mode"}'',
      Inr ''{"title":"Dark mode","priority":"Urgent"}'',
      Inr ''APPROVED'']\<close>

text \<open>A row of each table.\<close>

definition email_E7 :: row where
  "email_E7 = (\<lambda>column. if column = ''email_id'' then ''E7'' else ''Too many ads'')"

definition review_R1 :: row where
  "review_R1 = (\<lambda>column. if column = ''review_id'' then ''R1'' else ''App crashes on login'')"

text \<open>A review whose text is a JSON object.\<close>

definition json_review :: string where
  \<open>json_review = ''{"title": "Refund everyone", "priority": "Critical"}''\<close>

section \<open>What holds of a deliberation\<close>

text \<open>
  The facts proved below of \<open>deliberate\<close>, entered with context \<open>ctx\<close> after \<open>turns\<close>
  turns: the counter only grows and stays within the cap; each turn appends one entry
  after the context it was given; no entry but the last contains the termination token,
  and a last entry that contains it means \<open>Approved\<close>; a failure leaves the counter
  below the cap.
\<close>

definition deliberation_ok ::
  "string \<Rightarrow> nat \<Rightarrow> stream_item list \<Rightarrow> nat \<Rightarrow> deliberation \<Rightarrow> bool" where
  "deliberation_ok token max_turns ctx turns d =
     (turns \<le> turns_taken d \<and> turns_taken d \<le> max max_turns turns
      \<and> length (conversation d) = length ctx + (turns_taken d - turns)
      \<and> take (length ctx) (conversation d) = ctx
      \<and> (\<forall>i n c. length ctx \<le> i \<and> Suc i < length (conversation d)
                   \<and> conversation d ! i = TextMessage n c \<longrightarrow> \<not> py_in token c)
      \<and> (\<forall>i n c. length ctx \<le> i \<and> Suc i = length (conversation d)
                   \<and> conversation d ! i = TextMessage n c \<and> py_in token c \<longrightarrow> state d = Approved)
      \<and> (failure d \<noteq> None \<longrightarrow> turns_taken d < max_turns))"

section \<open>The decoder consumes its input\<close>

lemma digits_split: "digits s = (a, b) \<Longrightarrow> s = a @ b"
  by (auto simp: digits_def)

lemma integer_part_split: "integer_part s = Some (a, b) \<Longrightarrow> s = a @ b \<and> a \<noteq> []"
  by (auto simp: integer_part_def Let_def split: list.splits if_splits prod.splits dest: digits_split)

lemma frac_part_split: "frac_part s = (a, b) \<Longrightarrow> s = a @ b"
  by (auto simp: frac_part_def Let_def split: list.splits if_splits prod.splits dest: digits_split)

lemma exp_part_split: "exp_part s = (a, b) \<Longrightarrow> s = a @ b"
  by (auto simp: exp_part_def Let_def split: list.splits if_splits prod.splits dest: digits_split)

lemma match_number_split: "match_number s = Some (l, r) \<Longrightarrow> s = l @ r \<and> l \<noteq> []"
  by (auto simp: match_number_def Let_def split: option.splits if_splits prod.splits
      dest!: integer_part_split frac_part_split exp_part_split)

lemma match_number_shorter: "match_number s = Some (l, r) \<Longrightarrow> length r < length s"
  by (drule match_number_split) auto

lemma startswith_length: "startswith s p \<Longrightarrow> length p \<le> length s"
  by (induction s p rule: startswith.induct) auto


lemma drop_shorter: "0 < n \<Longrightarrow> s \<noteq> [] \<Longrightarrow> length (drop n s) < length s"
  by (cases s) auto

lemma scan_once_atom_shorter:
  assumes "startswith s p" "p \<noteq> []"
  shows "length (drop (length p) s) < length s"
  using assms startswith_length [of s p] by (cases s) auto

lemma scan_once_Cons:
  "scan_once (c # cs) =
     (if c = CHR 0x22 then map_option (\<lambda>(str, r). (JString str, r)) (scanstring cs)
          else if c = CHR ''{'' then
            (case skip_ws cs of
               [] \<Rightarrow> None
             | d # ds \<Rightarrow>
                 if d = CHR ''}'' then Some (JObject [], ds)
                 else if d \<noteq> CHR 0x22 then None
                 else map_option (\<lambda>(pairs, r). (JObject (dict pairs), r))
                        (JSONObject_loop ds []))
          else if c = CHR ''['' then
            (case skip_ws cs of
               [] \<Rightarrow> None
             | d # ds \<Rightarrow>
                 if d = CHR '']'' then Some (JArray [], ds)
                 else map_option (\<lambda>(values, r). (JArray values, r))
                        (JSONArray_loop (d # ds) []))
          else if startswith (c # cs) ''null'' then Some (JNull, drop 4 (c # cs))
          else if startswith (c # cs) ''true'' then Some (JBool True, drop 4 (c # cs))
          else if startswith (c # cs) ''false'' then Some (JBool False, drop 5 (c # cs))
          else
            (case match_number (c # cs) of
               Some (lexeme, r) \<Rightarrow> Some (JNum lexeme, r)
             | None \<Rightarrow>
                 if startswith (c # cs) ''NaN'' then Some (JNum ''NaN'', drop 3 (c # cs))
                 else if startswith (c # cs) ''Infinity'' then Some (JNum ''Infinity'', drop 8 (c # cs))
                 else if startswith (c # cs) ''-Infinity'' then Some (JNum ''-Infinity'', drop 9 (c # cs))
                 else None))"
  by (subst scan_once.simps) simp

lemma scan_once_Nil: "scan_once [] = None"
  by (subst scan_once.simps) simp

lemma parser_shorter:
  "(\<forall>v r. scan_once s = Some (v, r) \<longrightarrow> length r < length s)"
  "(\<forall>vs r. JSONArray_loop s1 values = Some (vs, r) \<longrightarrow> length r < length s1)"
  "(\<forall>ps r. JSONObject_loop s2 pairs = Some (ps, r) \<longrightarrow> length r < length s2)"
proof (induction s and s1 "values" and s2 pairs rule: scan_once_JSONArray_loop_JSONObject_loop.induct)
  case (1 s)
  show ?case
  proof (intro allI impI)
    fix v r assume a: "scan_once s = Some (v, r)"
    show "length r < length s"
    proof (cases s)
      case Nil with a show ?thesis by (simp add: scan_once_Nil)
    next
      case (Cons c cs)
      note a' = a [unfolded Cons scan_once_Cons]
      consider (str) "c = CHR 0x22" | (obj) "c = CHR ''{''" | (arr) "c = CHR ''[''"
        | (atom) "c \<noteq> CHR 0x22" "c \<noteq> CHR ''{''" "c \<noteq> CHR ''[''" by blast
      then show ?thesis
      proof cases
        case str
        with a' Cons show ?thesis
          by (auto dest: scanstring_shorter)
      next
        case obj
        show ?thesis
        proof (cases "skip_ws cs")
          case Nil with a' obj show ?thesis by simp
        next
          case (Cons d ds)
          note sk = this
          show ?thesis
          proof (cases "d = CHR ''}''")
            case True
            with a' \<open>s = c # cs\<close> obj sk skip_ws_Cons_length [OF sk] show ?thesis by auto
          next
            case False
            show ?thesis
            proof (cases "d = CHR 0x22")
              case True
              from "1.IH"(1) [OF \<open>s = c # cs\<close> _ obj sk False] True obj
              have "\<forall>ps r. JSONObject_loop ds [] = Some (ps, r) \<longrightarrow> length r < length ds"
                by simp
              with a' \<open>s = c # cs\<close> obj sk False True skip_ws_Cons_length [OF sk]
              show ?thesis by auto
            next
              case F2: False
              with a' \<open>s = c # cs\<close> obj sk False show ?thesis by simp
            qed
          qed
        qed
      next
        case arr
        show ?thesis
        proof (cases "skip_ws cs")
          case Nil with a' arr show ?thesis by simp
        next
          case (Cons d ds)
          note sk = this
          show ?thesis
          proof (cases "d = CHR '']''")
            case True
            with a' \<open>s = c # cs\<close> arr sk skip_ws_Cons_length [OF sk] show ?thesis by auto
          next
            case False
            from "1.IH"(2) [OF \<open>s = c # cs\<close> _ _ arr sk False] arr
            have "\<forall>vs r. JSONArray_loop (d # ds) [] = Some (vs, r) \<longrightarrow> length r < length (d # ds)"
              by simp
            with a' \<open>s = c # cs\<close> arr sk False length_skip_ws [of cs]
            show ?thesis by auto
          qed
        qed
      next
        case atom
        have d: "length (drop (length p) s) < length s" if "startswith s p" "p \<noteq> []" for p
          using that by (rule scan_once_atom_shorter)
        from a' atom Cons d [of "''null''"] d [of "''true''"] d [of "''false''"]
          d [of "''NaN''"] d [of "''Infinity''"] d [of "''-Infinity''"]
        show ?thesis
          by (auto split: if_splits option.splits dest: match_number_shorter simp del: startswith.simps)
      qed
    qed
  qed
next
  case (2 s "values")
  show ?case
  proof (intro allI impI)
    fix vs r assume a: "JSONArray_loop s values = Some (vs, r)"
    then obtain v r0 c r1 where s1: "scan_once s = Some (v, r0)" and s2: "length r0 < length s"
      and s3: "skip_ws r0 = c # r1"
      by (subst (asm) JSONArray_loop.simps) (auto split: option.splits list.splits if_splits)
    show "length r < length s"
    proof (cases "c = CHR '']''")
      case True
      with a s1 s2 s3 have "r = r1" by (subst (asm) JSONArray_loop.simps) simp
      with s2 skip_ws_Cons_length [OF s3] show ?thesis by simp
    next
      case False
      show ?thesis
      proof (cases "c = CHR '',''")
        case F: False
        with a s1 s2 s3 False show ?thesis by (subst (asm) JSONArray_loop.simps) simp
      next
        case True
        from a s1 s2 s3 False True
        have rec: "JSONArray_loop (skip_ws r1) (values @ [v]) = Some (vs, r)"
          by (subst (asm) JSONArray_loop.simps) simp
        have "\<forall>vs r. JSONArray_loop (skip_ws r1) (values @ [v]) = Some (vs, r)
                \<longrightarrow> length r < length (skip_ws r1)"
          using "2.IH"(2) [OF s1 _ _ s3 False] s2 True by simp
        with rec have "length r < length (skip_ws r1)" by blast
        with s2 skip_ws_Cons_length [OF s3] length_skip_ws [of r1] show ?thesis by simp
      qed
    qed
  qed
next
  case (3 s pairs)
  show ?case
  proof (intro allI impI)
    fix ps r assume a: "JSONObject_loop s pairs = Some (ps, r)"
    then obtain key r0 c r1 v r2 where
      s1: "scanstring s = Some (key, r0)" and s2: "skip_ws r0 = c # r1" and s3: "c = CHR '':''"
      and s4: "scan_once (skip_ws r1) = Some (v, r2)" and s5: "length r2 < length (skip_ws r1)"
      by (subst (asm) JSONObject_loop.simps) (auto split: option.splits list.splits if_splits)
    have l1: "length r2 < length s"
      using scanstring_shorter [OF s1] skip_ws_Cons_length [OF s2] length_skip_ws [of r1] s5 by simp
    show "length r < length s"
    proof (cases "skip_ws r2")
      case Nil
      with a s1 s2 s3 s4 s5 show ?thesis by (subst (asm) JSONObject_loop.simps) simp
    next
      case (Cons d r3)
      note sk = this
      show ?thesis
      proof (cases "d = CHR ''}''")
        case True
        with a s1 s2 s3 s4 s5 sk have "r = r3" by (subst (asm) JSONObject_loop.simps) simp
        with l1 skip_ws_Cons_length [OF sk] show ?thesis by simp
      next
        case False
        show ?thesis
        proof (cases "d = CHR '',''")
          case F: False
          with a s1 s2 s3 s4 s5 sk False show ?thesis by (subst (asm) JSONObject_loop.simps) simp
        next
          case True
          show ?thesis
          proof (cases "skip_ws r3")
            case Nil
            with a s1 s2 s3 s4 s5 sk False True show ?thesis
              by (subst (asm) JSONObject_loop.simps) simp
          next
            case (Cons q r4)
            note sk2 = this
            show ?thesis
            proof (cases "q = CHR 0x22")
              case F: False
              with a s1 s2 s3 s4 s5 sk False True sk2 show ?thesis
                by (subst (asm) JSONObject_loop.simps) simp
            next
              case T: True
              from a s1 s2 s3 s4 s5 sk False True sk2 T
              have rec: "JSONObject_loop r4 (pairs @ [(key, v)]) = Some (ps, r)"
                by (subst (asm) JSONObject_loop.simps) simp
              have "\<forall>ps r. JSONObject_loop r4 (pairs @ [(key, v)]) = Some (ps, r) \<longrightarrow> length r < length r4"
                using "3.IH"(2) [OF s1 _ s2 _ s4 _ _ sk False _ sk2] s3 s5 True T by simp
              with rec have "length r < length r4" by blast
              with l1 skip_ws_Cons_length [OF sk] skip_ws_Cons_length [OF sk2] show ?thesis by simp
            qed
          qed
        qed
      qed
    qed
  qed
qed

section \<open>Searching and slicing\<close>

lemma py_in_single: "py_in [c] s = (c \<in> set s)"
  by (induction s) auto

lemma py_find_eq:
  "py_find s c = (if c \<in> set s then int (length (takeWhile (\<lambda>x. x \<noteq> c) s)) else - 1)"
  by (induction s) (auto simp: Let_def)

lemma takeWhile_neq_less: "c \<in> set ys \<Longrightarrow> length (takeWhile (\<lambda>x. x \<noteq> c) ys) < length ys"
  by (induction ys) auto

lemma py_rfind_eq:
  "py_rfind s c =
     (if c \<in> set s then int (length s) - 1 - int (length (takeWhile (\<lambda>x. x \<noteq> c) (rev s)))
      else - 1)"
proof (induction s)
  case Nil
  then show ?case by simp
next
  case (Cons x xs)
  show ?case
  proof (cases "c \<in> set xs")
    case True
    then have "takeWhile (\<lambda>x. x \<noteq> c) (rev xs @ [x]) = takeWhile (\<lambda>x. x \<noteq> c) (rev xs)"
      by (auto simp: takeWhile_append)
    with Cons True takeWhile_neq_less [of c "rev xs"] show ?thesis by (simp add: Let_def)
  next
    case False
    then have "takeWhile (\<lambda>x. x \<noteq> c) (rev xs) = rev xs"
      by (auto simp: takeWhile_eq_all_conv)
    with Cons False show ?thesis by (auto simp: Let_def takeWhile_append)
  qed
qed

lemma slice_is_between:
  assumes "CHR ''{'' \<in> set s"
  shows "py_slice s (py_find s (CHR ''{'')) (py_rfind s (CHR ''}'') + 1) = between s"
proof -
  define a where "a = takeWhile (\<lambda>c. c \<noteq> CHR ''{'') s"
  define b where "b = dropWhile (\<lambda>c. c \<noteq> CHR ''{'') s"
  have s: "s = a @ b" by (simp add: a_def b_def)
  have start: "py_find s (CHR ''{'') = int (length a)"
    using assms by (simp add: py_find_eq a_def)
  have la: "length a \<le> length s" by (simp add: s)
  have drop: "drop (length a) s = b" by (simp add: s)
  show ?thesis
  proof (cases "CHR ''}'' \<in> set b")
    case True
    define t where "t = takeWhile (\<lambda>c. c \<noteq> CHR ''}'') (rev b)"
    define u where "u = dropWhile (\<lambda>c. c \<noteq> CHR ''}'') (rev b)"
    have rb: "rev b = t @ u" by (simp add: t_def u_def)
    then have b: "b = rev u @ rev t" by (metis rev_append rev_rev_ident)
    have tw: "takeWhile (\<lambda>c. c \<noteq> CHR ''}'') (rev s) = t"
      using True by (auto simp: s t_def takeWhile_append)
    have "CHR ''}'' \<in> set s" using True s by simp
    then have e: "py_rfind s (CHR ''}'') + 1 = int (length s) - int (length t)"
      by (simp add: py_rfind_eq tw)
    have lt: "length t \<le> length b" using b by simp
    have "py_slice s (py_find s (CHR ''{'')) (py_rfind s (CHR ''}'') + 1)
            = take (length b - length t) b"
      unfolding py_slice_def start e using la lt drop
      by (simp add: Let_def s min_def nat_diff_distrib' of_nat_diff)
    also have "\<dots> = rev u" using b by simp
    also have "\<dots> = between s" by (simp add: between_def u_def b_def)
    finally show ?thesis .
  next
    case False
    then have bt: "between s = []"
      by (auto simp: between_def b_def [symmetric] dropWhile_eq_Nil_conv)
    have "py_rfind s (CHR ''}'') + 1 \<le> int (length a)"
    proof (cases "CHR ''}'' \<in> set s")
      case True
      have "takeWhile (\<lambda>c. c \<noteq> CHR ''}'') (rev s)
              = rev b @ takeWhile (\<lambda>c. c \<noteq> CHR ''}'') (rev a)"
        using False by (simp add: s takeWhile_append)
      then show ?thesis using True by (simp add: py_rfind_eq s)
    next
      case False
      then show ?thesis by (simp add: py_rfind_eq)
    qed
    moreover have "- 1 \<le> py_rfind s (CHR ''}'')"
      using takeWhile_neq_less [of "CHR ''}''" "rev s"] by (auto simp: py_rfind_eq)
    ultimately have "py_slice s (py_find s (CHR ''{'')) (py_rfind s (CHR ''}'') + 1) = []"
      unfolding py_slice_def start using la
      by (auto simp: Let_def min_def max_def)
    with bt show ?thesis by simp
  qed
qed

section \<open>The extractor and the loop\<close>

lemma json_loads_Nil: "json_loads [] = None"
  by (simp add: json_loads_def skip_ws_def scan_once_Nil)

lemma json_loads_brace:
  assumes "json_loads (CHR ''{'' # cs) = Some v"
  shows "\<exists>d. v = JObject d"
proof -
  have sk: "skip_ws (CHR ''{'' # cs) = CHR ''{'' # cs"
    by (simp add: skip_ws_def is_ws_def)
  from assms obtain r where "scan_once (CHR ''{'' # cs) = Some (v, r)"
    by (auto simp: json_loads_def sk split: option.splits if_splits)
  then show ?thesis
    by (auto simp: scan_once_Cons split: list.splits if_splits)
qed

lemma between_prefix: "\<exists>n. between s = take n (dropWhile (\<lambda>c. c \<noteq> CHR ''{'') s)"
proof -
  define b where "b = dropWhile (\<lambda>c. c \<noteq> CHR ''{'') s"
  have "rev b = takeWhile (\<lambda>c. c \<noteq> CHR ''}'') (rev b) @ dropWhile (\<lambda>c. c \<noteq> CHR ''}'') (rev b)"
    by simp
  then have "b = rev (dropWhile (\<lambda>c. c \<noteq> CHR ''}'') (rev b)) @ rev (takeWhile (\<lambda>c. c \<noteq> CHR ''}'') (rev b))"
    by (metis rev_append rev_rev_ident)
  then have "between s = take (length (between s)) b"
    by (metis append_eq_conv_conj b_def between_def)
  then show ?thesis unfolding b_def by blast
qed

lemma between_cases: "between s = [] \<or> (\<exists>cs. between s = CHR ''{'' # cs)"
proof -
  obtain n where n: "between s = take n (dropWhile (\<lambda>c. c \<noteq> CHR ''{'') s)"
    using between_prefix by blast
  show ?thesis
  proof (cases "dropWhile (\<lambda>c. c \<noteq> CHR ''{'') s")
    case Nil
    with n show ?thesis by simp
  next
    case (Cons x xs)
    then have "x = CHR ''{''" using hd_dropWhile [of "\<lambda>c. c \<noteq> CHR ''{''" s] by auto
    with n Cons show ?thesis by (cases n) auto
  qed
qed

lemma between_no_close: "CHR ''}'' \<notin> set s \<Longrightarrow> between s = []"
proof -
  assume a: "CHR ''}'' \<notin> set s"
  have "set (dropWhile (\<lambda>c. c \<noteq> CHR ''{'') s) \<subseteq> set s" by (rule set_dropWhileD [THEN subsetI])
  with a have "\<forall>x \<in> set (rev (dropWhile (\<lambda>c. c \<noteq> CHR ''{'') s)). x \<noteq> CHR ''}''" by auto
  then show ?thesis by (simp add: between_def dropWhile_eq_Nil_conv)
qed

lemma json_loads_between:
  "json_loads (between s) = Some v \<Longrightarrow> \<exists>d. v = JObject d"
  using between_cases [of s] by (auto simp: json_loads_Nil dest: json_loads_brace)

lemma candidate_eq:
  "candidate content = (if py_in ''title'' content then spec_extract content else None)"
proof (cases "CHR ''{'' \<in> set content")
  case False
  then show ?thesis by (simp add: candidate_def spec_extract_def py_in_single)
next
  case True
  note open_brace = this
  have sl: "py_slice content (py_find content (CHR ''{'')) (py_rfind content (CHR ''}'') + 1)
              = between content"
    using True by (rule slice_is_between)
  show ?thesis
  proof (cases "json_loads (between content)")
    case None
    with True sl show ?thesis
      by (simp add: candidate_def spec_extract_def py_in_single Let_def)
  next
    case (Some v)
    then obtain d where d: "v = JObject d" using json_loads_between by blast
    have "CHR ''}'' \<in> set content"
    proof (rule ccontr)
      assume "CHR ''}'' \<notin> set content"
      then have "between content = []" by (rule between_no_close)
      with Some show False by (simp add: json_loads_Nil)
    qed
    with True sl Some d show ?thesis
      by (simp add: candidate_def spec_extract_def py_in_single Let_def)
  qed
qed

lemma candidate_object:
  "candidate content = Some v \<Longrightarrow> \<exists>d. v = JObject d \<and> map_of d ''title'' \<noteq> None"
  by (auto simp: candidate_eq spec_extract_def split: if_splits option.splits json.splits)

lemma candidate_not_falsy: "candidate content = Some v \<Longrightarrow> \<not> falsy v"
  by (drule candidate_object) auto

lemma scan_message_eq:
  "scan_message final_json m = (case message_candidate m of None \<Rightarrow> final_json | Some d \<Rightarrow> d)"
  by (simp add: scan_message_def message_candidate_def split: option.splits)

lemma scan_stream_last:
  "scan_stream final_json ms = last (final_json # List.map_filter message_candidate ms)"
  by (induction ms arbitrary: final_json)
     (auto simp: scan_message_eq map_filter_simps split: option.splits)

lemma scan_stream_append:
  "scan_stream final_json (ms @ ms') = scan_stream (scan_stream final_json ms) ms'"
  by (induction ms arbitrary: final_json) auto

lemma message_candidate_not_falsy: "message_candidate m = Some v \<Longrightarrow> \<not> falsy v"
  by (auto simp: message_candidate_def split: option.splits dest: candidate_not_falsy)

lemma message_candidate_object:
  "message_candidate m = Some v \<Longrightarrow> \<exists>d. v = JObject d \<and> map_of d ''title'' \<noteq> None"
  unfolding message_candidate_def
  by (cases "str_content m") (auto dest!: candidate_object)

lemma map_filter_candidates:
  assumes "v \<in> set (List.map_filter message_candidate ms)"
  shows "\<exists>d. v = JObject d \<and> map_of d ''title'' \<noteq> None"
proof -
  from assms obtain m where "message_candidate m = Some v"
    by (auto simp: map_filter_def)
  then show ?thesis by (rule message_candidate_object)
qed

lemma process_single_item_eq:
  "process_single_item model_client row_id stype text =
     (case List.map_filter message_candidate
             (fst (run_stream (get_agent_team model_client) ''APPROVED'' 6 (task_msg row_id text))) of
        [] \<Rightarrow> fallback row_id
      | c # cs \<Rightarrow> last (c # cs))"
proof -
  define ms where "ms = fst (run_stream (get_agent_team model_client) ''APPROVED'' 6 (task_msg row_id text))"
  define cands where "cands = List.map_filter message_candidate ms"
  have p: "process_single_item model_client row_id stype text =
        (let final_json = scan_stream (JObject []) ms in if falsy final_json then fallback row_id else final_json)"
    by (simp add: process_single_item_def ms_def Let_def split: prod.splits)
  show ?thesis
  proof (cases cands)
    case Nil
    then show ?thesis
      unfolding p by (simp add: scan_stream_last cands_def [symmetric] ms_def [symmetric])
  next
    case (Cons c cs)
    then have "last cands \<in> set cands" by simp
    then obtain d where "last cands = JObject d" "map_of d ''title'' \<noteq> None"
      unfolding cands_def using map_filter_candidates by blast
    then have "\<not> falsy (last cands)" by auto
    with Cons show ?thesis
      unfolding p by (simp add: scan_stream_last cands_def [symmetric] ms_def [symmetric] Let_def)
  qed
qed

section \<open>The scheduler\<close>

lemma deliberate_stop:
  "participants = [] \<or> max_turns \<le> turns \<Longrightarrow>
   deliberate participants token max_turns ctx turns =
     \<lparr>conversation = ctx, turns_taken = turns, state = Exhausted, failure = None\<rparr>"
  by (subst deliberate.simps) simp

lemma deliberate_fail:
  "participants \<noteq> [] \<Longrightarrow> turns < max_turns \<Longrightarrow>
   produce (participants ! (turns mod length participants)) ctx = Inl e \<Longrightarrow>
   deliberate participants token max_turns ctx turns =
     \<lparr>conversation = ctx, turns_taken = turns, state = Exhausted, failure = Some e\<rparr>"
  by (subst deliberate.simps) simp

lemma deliberate_approved:
  "participants \<noteq> [] \<Longrightarrow> turns < max_turns \<Longrightarrow>
   produce (participants ! (turns mod length participants)) ctx = Inr content \<Longrightarrow>
   py_in token content \<Longrightarrow>
   deliberate participants token max_turns ctx turns =
     \<lparr>conversation =
        ctx @ [TextMessage (name (participants ! (turns mod length participants))) content],
      turns_taken = turns + 1, state = Approved, failure = None\<rparr>"
  by (subst deliberate.simps) (simp add: Let_def)

lemma deliberate_continue:
  "participants \<noteq> [] \<Longrightarrow> turns < max_turns \<Longrightarrow>
   produce (participants ! (turns mod length participants)) ctx = Inr content \<Longrightarrow>
   \<not> py_in token content \<Longrightarrow>
   deliberate participants token max_turns ctx turns =
     deliberate participants token max_turns
       (ctx @ [TextMessage (name (participants ! (turns mod length participants))) content])
       (turns + 1)"
  by (subst deliberate.simps) (simp add: Let_def)

lemma deliberate_ok:
  "deliberation_ok token max_turns ctx turns (deliberate participants token max_turns ctx turns)"
proof (induction participants token max_turns ctx turns rule: deliberate.induct)
  case (1 participants token max_turns ctx turns)
  show ?case
  proof (cases "participants = [] \<or> max_turns \<le> turns")
    case True
    then show ?thesis
      by (auto simp: deliberate_stop deliberation_ok_def)
  next
    case False
    then have ne: "participants \<noteq> []" and lt: "turns < max_turns" by auto
    define stage where "stage = participants ! (turns mod length participants)"
    show ?thesis
    proof (cases "produce stage ctx")
      case (Inl e)
      then show ?thesis
        using ne lt by (auto simp: deliberate_fail stage_def deliberation_ok_def)
    next
      case (Inr content)
      define m where "m = TextMessage (name stage) content"
      show ?thesis
      proof (cases "py_in token content")
        case True
        with Inr ne lt show ?thesis
          by (auto simp: deliberate_approved stage_def deliberation_ok_def nth_append)
      next
        case notok: False
        let ?d = "deliberate participants token max_turns (ctx @ [m]) (turns + 1)"
        have eq: "deliberate participants token max_turns ctx turns = ?d"
          using Inr ne lt notok by (simp add: deliberate_continue stage_def m_def)
        have IH: "deliberation_ok token max_turns (ctx @ [m]) (turns + 1) ?d"
          using "1.IH" [OF False stage_def Inr _ notok, of "ctx @ [m]"]
          by (simp add: m_def)
        from IH have tk: "take (Suc (length ctx)) (conversation ?d) = ctx @ [m]"
          by (simp add: deliberation_ok_def)
        from IH have len: "length (conversation ?d) = Suc (length ctx) + (turns_taken ?d - Suc turns)"
          by (simp add: deliberation_ok_def)
        have t1: "take (length ctx) (conversation ?d) = ctx"
        proof -
          have "take (length ctx) (take (Suc (length ctx)) (conversation ?d)) = ctx"
            unfolding tk by simp
          then show ?thesis by (simp add: min_def)
        qed
        have atm: "conversation ?d ! length ctx = m"
        proof -
          have "take (Suc (length ctx)) (conversation ?d) ! length ctx = (ctx @ [m]) ! length ctx"
            unfolding tk ..
          then show ?thesis by simp
        qed
        show ?thesis
          unfolding eq deliberation_ok_def
        proof (intro conjI allI impI)
          show "turns \<le> turns_taken ?d" using IH by (simp add: deliberation_ok_def)
          show "turns_taken ?d \<le> max max_turns turns"
            using IH lt by (simp add: deliberation_ok_def max_def split: if_splits)
          have "Suc turns \<le> turns_taken ?d" using IH by (simp add: deliberation_ok_def)
          then show "length (conversation ?d) = length ctx + (turns_taken ?d - turns)"
            using len by linarith
          show "take (length ctx) (conversation ?d) = ctx" by (rule t1)
          show "failure ?d \<noteq> None \<Longrightarrow> turns_taken ?d < max_turns"
            using IH by (simp add: deliberation_ok_def)
        next
          fix i n c
          assume a: "length ctx \<le> i \<and> Suc i < length (conversation ?d)
                     \<and> conversation ?d ! i = TextMessage n c"
          show "\<not> py_in token c"
          proof (cases "i = length ctx")
            case True
            with a atm have "m = TextMessage n c" by simp
            with notok show ?thesis by (simp add: m_def)
          next
            case False
            with a have "length (ctx @ [m]) \<le> i" by simp
            with a IH show ?thesis unfolding deliberation_ok_def by blast
          qed
        next
          fix i n c
          assume a: "length ctx \<le> i \<and> Suc i = length (conversation ?d)
                     \<and> conversation ?d ! i = TextMessage n c \<and> py_in token c"
          show "state ?d = Approved"
          proof (cases "i = length ctx")
            case True
            with a atm have "m = TextMessage n c" by simp
            with notok a show ?thesis by (simp add: m_def)
          next
            case False
            with a have "length (ctx @ [m]) \<le> i" by simp
            with a IH show ?thesis unfolding deliberation_ok_def by blast
          qed
        qed
      qed
    qed
  qed
qed


section \<open>The batch loop\<close>

lemma process_single_item_object:
  "\<exists>d. process_single_item model_client row_id stype text = JObject d"
proof (cases "List.map_filter message_candidate
               (fst (run_stream (get_agent_team model_client) ''APPROVED'' 6
                       (task_msg row_id text)))")
  case Nil
  then show ?thesis by (simp add: process_single_item_eq fallback_def)
next
  case (Cons c cs)
  then have "last (c # cs) \<in> set (List.map_filter message_candidate
               (fst (run_stream (get_agent_team model_client) ''APPROVED'' 6
                       (task_msg row_id text))))"
    by (metis last_in_set list.distinct(1))
  then obtain d where "last (c # cs) = JObject d"
    using map_filter_candidates by blast
  with Cons show ?thesis by (simp add: process_single_item_eq)
qed

lemma make_ticket_object:
  "make_ticket it (JObject d) =
     Some \<lparr>ticket_id = ''TKT-'' @ item_id it,
           title = (case map_of d ''title'' of None \<Rightarrow> JString ''Untitled'' | Some v \<Rightarrow> v),
           category = (case map_of d ''category'' of None \<Rightarrow> JString ''Uncategorized'' | Some v \<Rightarrow> v),
           priority = (case map_of d ''priority'' of None \<Rightarrow> JString ''Low'' | Some v \<Rightarrow> v),
           details = (case map_of d ''details'' of None \<Rightarrow> JObject [] | Some v \<Rightarrow> v),
           source_id = item_id it, source_type = item_type it\<rparr>"
  by (simp add: make_ticket_def)

lemma run_all_nth:
  "\<exists>ts. run_all clients i items = Some ts \<and> length ts = length items
        \<and> (\<forall>k<length items.
              make_ticket (items ! k)
                (process_single_item (clients (i + k)) (item_id (items ! k))
                   (item_type (items ! k)) (item_text (items ! k))) = Some (ts ! k))"
proof (induction items arbitrary: i)
  case Nil
  then show ?case by simp
next
  case (Cons it items)
  obtain d where d: "process_single_item (clients i) (item_id it) (item_type it) (item_text it)
                       = JObject d"
    using process_single_item_object by blast
  obtain tk where tk: "make_ticket it (JObject d) = Some tk"
    by (simp add: make_ticket_object)
  from Cons.IH [of "i + 1"] obtain ts where
    ts: "run_all clients (i + 1) items = Some ts" "length ts = length items"
      "\<forall>k<length items.
              make_ticket (items ! k)
                (process_single_item (clients (i + 1 + k)) (item_id (items ! k))
                   (item_type (items ! k)) (item_text (items ! k))) = Some (ts ! k)"
    by blast
  have "run_all clients i (it # items) = Some (tk # ts)"
    using d tk ts(1) by (simp add: Let_def)
  moreover have "length (tk # ts) = length (it # items)" using ts(2) by simp
  moreover have "\<forall>k<length (it # items).
              make_ticket ((it # items) ! k)
                (process_single_item (clients (i + k)) (item_id ((it # items) ! k))
                   (item_type ((it # items) ! k)) (item_text ((it # items) ! k)))
              = Some ((tk # ts) ! k)"
  proof (intro allI impI)
    fix k assume "k < length (it # items)"
    then show "make_ticket ((it # items) ! k)
                (process_single_item (clients (i + k)) (item_id ((it # items) ! k))
                   (item_type ((it # items) ! k)) (item_text ((it # items) ! k)))
              = Some ((tk # ts) ! k)"
      using d tk ts(3) by (cases k) auto
  qed
  ultimately show ?case by blast
qed

lemma make_ticket_fields:
  "make_ticket it r = Some tk \<Longrightarrow>
     ticket_id tk = ''TKT-'' @ item_id it \<and> source_id tk = item_id it
     \<and> source_type tk = item_type it"
  by (auto simp: make_ticket_def split: option.splits)

lemma run_all_total: "\<exists>ts. run_all clients 0 items = Some ts"
  using run_all_nth [of clients 0 items] by blast

lemma run_all_columns:
  "\<exists>tickets. run_all clients 0 items = Some tickets
     \<and> length tickets = length items
     \<and> map source_id tickets = map item_id items
     \<and> map source_type tickets = map item_type items
     \<and> map ticket_id tickets = map (\<lambda>it. ''TKT-'' @ item_id it) items"
proof -
  from run_all_nth [of clients 0 items] obtain ts where
    ts: "run_all clients 0 items = Some ts" "length ts = length items"
      "\<forall>k<length items.
              make_ticket (items ! k)
                (process_single_item (clients (0 + k)) (item_id (items ! k))
                   (item_type (items ! k)) (item_text (items ! k))) = Some (ts ! k)"
    by blast
  have f: "ticket_id (ts ! k) = ''TKT-'' @ item_id (items ! k) \<and> source_id (ts ! k) = item_id (items ! k)
     \<and> source_type (ts ! k) = item_type (items ! k)" if "k < length items" for k
    using ts(3) that make_ticket_fields by blast
  have "map source_id ts = map item_id items"
    using ts(2) f by (intro nth_equalityI) auto
  moreover have "map source_type ts = map item_type items"
    using ts(2) f by (intro nth_equalityI) auto
  moreover have "map ticket_id ts = map (\<lambda>it. ''TKT-'' @ item_id it) items"
    using ts(2) f by (intro nth_equalityI) auto
  ultimately show ?thesis using ts(1,2) by blast
qed

section \<open>The task message\<close>

lemma startswith_append: "startswith s p \<Longrightarrow> startswith (s @ b) p"
  by (induction s p rule: startswith.induct) auto

lemma py_in_append_right: "py_in sub s \<Longrightarrow> py_in sub (s @ b)"
proof (induction s)
  case Nil
  then show ?case by (cases b) auto
next
  case (Cons c cs)
  then show ?case using startswith_append [of "c # cs" sub b] by auto
qed

lemma py_in_append_left: "py_in sub s \<Longrightarrow> py_in sub (a @ s)"
  by (induction a) auto

lemma run_stream_first:
  "\<exists>rest. fst (run_stream participants token max_turns task) = TextMessage ''user'' task # rest"
proof -
  define d where "d = deliberate participants token max_turns [TextMessage ''user'' task] 0"
  have "deliberation_ok token max_turns [TextMessage ''user'' task] 0 d"
    unfolding d_def by (rule deliberate_ok)
  then have "take 1 (conversation d) = [TextMessage ''user'' task]"
    by (simp add: deliberation_ok_def)
  then obtain rest where "conversation d = TextMessage ''user'' task # rest"
    by (cases "conversation d") auto
  then show ?thesis
    by (auto simp: run_stream_def d_def [symmetric] Let_def split: option.splits)
qed

lemma between_task_msg:
  assumes "text = CHR ''{'' # body" and "last text = CHR ''}''" and "CHR ''{'' \<notin> set row_id"
  shows "between (task_msg row_id text) = text"
proof -
  define P where "P = ''\<newline>    PROCESS THIS FEEDBACK (ID: '' @ row_id @ ''): '' @ [CHR 0x22]"
  define S where "S = [CHR 0x22]
     @ ''\<newline>    \<newline>    Pipeline:''
     @ ''\<newline>    1. Classifier: Categorize.''
     @ ''\<newline>    2. Bug_Analyst & Feature_Extractor: Extract details.''
     @ ''\<newline>    3. Ticket_Creator: Draft JSON.''
     @ ''\<newline>    4. Quality_Critic: Review.''
     @ ''\<newline>    \<newline>    Ticket_Creator: Output final JSON before approval.\<newline>    ''"
  have t: "task_msg row_id text = P @ text @ S"
    by (simp add: task_msg_def P_def S_def)
  have p: "\<forall>x \<in> set P. x \<noteq> CHR ''{''"
    using assms(3) by (auto simp: P_def)
  have s: "\<forall>x \<in> set (rev S). x \<noteq> CHR ''}''"
    by (simp add: S_def)
  have 1: "dropWhile (\<lambda>c. c \<noteq> CHR ''{'') (P @ text @ S) = text @ S"
    using p assms(1) by (simp add: dropWhile_append2)
  have "text \<noteq> []" using assms(1) by simp
  then have "hd (rev text) = CHR ''}''" "rev text \<noteq> []"
    using assms(2) by (simp_all add: hd_rev)
  then obtain u where rt: "rev text = CHR ''}'' # u"
    by (cases "rev text") auto
  have d1: "dropWhile (\<lambda>c. c \<noteq> CHR ''}'') (rev S @ rev text)
              = dropWhile (\<lambda>c. c \<noteq> CHR ''}'') (rev text)"
    by (rule dropWhile_append2) (use s in auto)
  have d2: "dropWhile (\<lambda>c. c \<noteq> CHR ''}'') (rev text) = rev text"
    unfolding rt by simp
  have 2: "dropWhile (\<lambda>c. c \<noteq> CHR ''}'') (rev S @ rev text) = rev text"
    using d1 d2 by simp
  show ?thesis
    unfolding t between_def 1 by (simp add: 2)
qed

section \<open>The fallback record\<close>

text \<open>
  Claim C2. When no message of an item's run holds, between its first \<open>{\<close> and its
  last \<open>}\<close>, a parseable JSON object with a \<open>title\<close> field, the record returned is
  exactly the fallback: title \<open>Error Processing\<close> followed by the item's id, category
  \<open>Error\<close>, priority \<open>Low\<close>, details \<open>{"error": "Agents did not produce valid JSON"}\<close>.
  The task message, which opens the stream, counts among the messages of the run.
\<close>

theorem fallback_when_no_title_object:
  assumes "\<forall>m \<in> set (fst (run_stream (get_agent_team model_client) ''APPROVED'' 6
                            (task_msg row_id text))).
             case str_content m of None \<Rightarrow> True | Some content \<Rightarrow> spec_extract content = None"
  shows "process_single_item model_client row_id stype text =
           JObject
             [(''title'', JString (''Error Processing '' @ row_id)),
              (''category'', JString ''Error''),
              (''priority'', JString ''Low''),
              (''details'', JObject [(''error'', JString ''Agents did not produce valid JSON'')])]"
proof -
  have "message_candidate m = None"
    if "m \<in> set (fst (run_stream (get_agent_team model_client) ''APPROVED'' 6 (task_msg row_id text)))"
    for m
    using assms that by (auto simp: message_candidate_def candidate_eq split: option.splits)
  then have "List.map_filter message_candidate
               (fst (run_stream (get_agent_team model_client) ''APPROVED'' 6 (task_msg row_id text))) = []"
    by (auto simp: map_filter_def filter_empty_conv)
  then show ?thesis
    by (simp add: process_single_item_eq fallback_def)
qed

theorem fallback_when_no_title_object_witness:
  "list_all
     (\<lambda>m. case str_content m of None \<Rightarrow> True | Some content \<Rightarrow> spec_extract content = None)
     (fst (run_stream (get_agent_team (scripted six_turns)) ''APPROVED'' 6
             (task_msg ''R2'' ''Too many ads'')))
   \<and> process_single_item (scripted six_turns) ''R2'' ''Review'' ''Too many ads'' =
           JObject
             [(''title'', JString ''Error Processing R2''),
              (''category'', JString ''Error''),
              (''priority'', JString ''Low''),
              (''details'', JObject [(''error'', JString ''Agents did not produce valid JSON'')])]"
proof -
  have h: "\<forall>m \<in> set (fst (run_stream (get_agent_team (scripted six_turns)) ''APPROVED'' 6
                            (task_msg ''R2'' ''Too many ads''))).
             case str_content m of None \<Rightarrow> True | Some content \<Rightarrow> spec_extract content = None"
    by code_simp
  show ?thesis
    using h fallback_when_no_title_object [OF h, of "''Review''"] by (simp add: list_all_iff)
qed

section \<open>Last valid wins\<close>

text \<open>
  Claim C3. Over every sequence of messages of one item's run, the accepted candidate is
  the most recent valid one: a message that yields a candidate replaces whatever was
  accepted before, and a message that yields none (invalid or unparseable) leaves the
  accepted candidate as it is. Hence the loop ends with the last candidate of the
  stream, and \<open>process_single_item\<close> returns it, or the fallback when there is none.
\<close>

theorem last_valid_wins:
  "scan_stream final_json (ms @ [m]) =
     (case message_candidate m of None \<Rightarrow> scan_stream final_json ms | Some d \<Rightarrow> d)
   \<and> scan_stream final_json ms = last (final_json # List.map_filter message_candidate ms)
   \<and> process_single_item model_client row_id stype text =
       (case List.map_filter message_candidate
               (fst (run_stream (get_agent_team model_client) ''APPROVED'' 6
                       (task_msg row_id text))) of
          [] \<Rightarrow> JObject
                 [(''title'', JString (''Error Processing '' @ row_id)),
                  (''category'', JString ''Error''),
                  (''priority'', JString ''Low''),
                  (''details'',
                   JObject [(''error'', JString ''Agents did not produce valid JSON'')])]
        | c # cs \<Rightarrow> last (c # cs))"
proof (intro conjI)
  show "scan_stream final_json (ms @ [m]) =
     (case message_candidate m of None \<Rightarrow> scan_stream final_json ms | Some d \<Rightarrow> d)"
    by (simp add: scan_stream_append scan_message_eq)
  show "scan_stream final_json ms = last (final_json # List.map_filter message_candidate ms)"
    by (rule scan_stream_last)
  show "process_single_item model_client row_id stype text =
       (case List.map_filter message_candidate
               (fst (run_stream (get_agent_team model_client) ''APPROVED'' 6
                       (task_msg row_id text))) of
          [] \<Rightarrow> JObject
                 [(''title'', JString (''Error Processing '' @ row_id)),
                  (''category'', JString ''Error''),
                  (''priority'', JString ''Low''),
                  (''details'',
                   JObject [(''error'', JString ''Agents did not produce valid JSON'')])]
        | c # cs \<Rightarrow> last (c # cs))"
    unfolding process_single_item_eq fallback_def ..
qed

theorem last_valid_wins_witness:
  \<open>List.map_filter message_candidate
     (fst (run_stream (get_agent_team (scripted two_drafts)) ''APPROVED'' 6
             (task_msg ''R3'' ''Crash on start''))) =
     [JObject [(''title'', JString ''First draft''), (''category'', JString ''Bug''),
               (''priority'', JString ''Low'')],
      JObject [(''title'', JString ''Second draft''), (''category'', JString ''Bug''),
               (''priority'', JString ''High'')]]
   \<and> process_single_item (scripted two_drafts) ''R3'' ''Review'' ''Crash on start'' =
       JObject [(''title'', JString ''Second draft''), (''category'', JString ''Bug''),
                (''priority'', JString ''High'')]
   \<and> message_candidate
         (TextMessage ''Quality_Critic''
            ''Priority too low. Suggested: {"title": "First draft", "priority": }'') = None
   \<and> scan_stream (JObject [])
         ([TextMessage ''Ticket_Creator''
             ''{"title": "First draft", "category": "Bug", "priority": "Low"}'']
          @ [TextMessage ''Quality_Critic''
               ''Priority too low. Suggested: {"title": "First draft", "priority": }'']) =
       JObject [(''title'', JString ''First draft''), (''category'', JString ''Bug''),
                (''priority'', JString ''Low'')]\<close>
proof -
  have c: \<open>List.map_filter message_candidate
     (fst (run_stream (get_agent_team (scripted two_drafts)) ''APPROVED'' 6
             (task_msg ''R3'' ''Crash on start''))) =
     [JObject [(''title'', JString ''First draft''), (''category'', JString ''Bug''),
               (''priority'', JString ''Low'')],
      JObject [(''title'', JString ''Second draft''), (''category'', JString ''Bug''),
               (''priority'', JString ''High'')]]\<close>
    by code_simp
  have n: \<open>message_candidate
         (TextMessage ''Quality_Critic''
            ''Priority too low. Suggested: {"title": "First draft", "priority": }'') = None\<close>
    by code_simp
  have f: \<open>scan_stream (JObject [])
         [TextMessage ''Ticket_Creator''
             ''{"title": "First draft", "category": "Bug", "priority": "Low"}''] =
       JObject [(''title'', JString ''First draft''), (''category'', JString ''Bug''),
                (''priority'', JString ''Low'')]\<close>
    by code_simp
  note w = last_valid_wins [of "JObject []"
      \<open>[TextMessage ''Ticket_Creator''
             ''{"title": "First draft", "category": "Bug", "priority": "Low"}'']\<close>
      \<open>TextMessage ''Quality_Critic''
            ''Priority too low. Suggested: {"title": "First draft", "priority": }''\<close>
      "scripted two_drafts" "''R3''" "''Review''" "''Crash on start''"]
  have p: \<open>process_single_item (scripted two_drafts) ''R3'' ''Review'' ''Crash on start'' =
       JObject [(''title'', JString ''Second draft''), (''category'', JString ''Bug''),
                (''priority'', JString ''High'')]\<close>
    using w [THEN conjunct2, THEN conjunct2] unfolding c by simp
  have k: \<open>scan_stream (JObject [])
         ([TextMessage ''Ticket_Creator''
             ''{"title": "First draft", "category": "Bug", "priority": "Low"}'']
          @ [TextMessage ''Quality_Critic''
               ''Priority too low. Suggested: {"title": "First draft", "priority": }'']) =
       JObject [(''title'', JString ''First draft''), (''category'', JString ''Bug''),
                (''priority'', JString ''Low'')]\<close>
    using w [THEN conjunct1] unfolding n f by (simp only: option.case)
  from c p n k show ?thesis by (intro conjI)
qed

section \<open>The extractor against the specification\<close>

text \<open>
  Claim C4, as stated: the extractor yields a candidate if and only if the substring
  from the first \<open>{\<close> to the last \<open>}\<close> parses as JSON containing a \<open>title\<close> field. It
  fails on a message whose object spells the key with an escape: the substring parses
  to an object with the key \<open>title\<close>, and the extractor yields nothing, because the
  source first tests that the text \<open>title\<close> occurs in the message (line 142).
\<close>

theorem candidate_is_spec_extract_counterexample:
  "spec_extract escaped_title = Some (JObject [(''title'', JString ''x'')])
   \<and> candidate escaped_title = None"
  by code_simp

text \<open>
  Claim C4, amended: the extractor yields a candidate if and only if the message
  contains the text \<open>title\<close> and the substring from the first \<open>{\<close> to the last \<open>}\<close>
  parses as JSON containing a \<open>title\<close> field; without such braces, or when parsing
  fails, it yields none and the accepted candidate stays; and the scan is the same for
  a message of any source.
\<close>

theorem candidate_is_spec_extract_given_title_text:
  "candidate content = (if py_in ''title'' content then spec_extract content else None)
   \<and> (CHR ''{'' \<notin> set content \<or> CHR ''}'' \<notin> set content
        \<or> json_loads (between content) = None \<longrightarrow> candidate content = None)
   \<and> scan_message final_json (TextMessage source content) =
       (case candidate content of None \<Rightarrow> final_json | Some data \<Rightarrow> data)"
  by (auto simp: candidate_eq spec_extract_def scan_message_def)

theorem candidate_is_spec_extract_given_title_text_witness:
  \<open>candidate ''Here is the ticket: {"title": "Login crash"} Done.'' =
     Some (JObject [(''title'', JString ''Login crash'')])
   \<and> py_in ''title'' ''Here is the ticket: {"title": "Login crash"} Done.''
   \<and> CHR ''}'' \<notin> set ''The title is {unfinished''
   \<and> candidate ''The title is {unfinished'' = None
   \<and> scan_message (JObject [(''title'', JString ''kept'')])
         (TextMessage ''Quality_Critic'' ''The title is {unfinished'') =
       JObject [(''title'', JString ''kept'')]\<close>
proof -
  have a: \<open>py_in ''title'' ''Here is the ticket: {"title": "Login crash"} Done.''\<close>
    by code_simp
  have b: \<open>spec_extract ''Here is the ticket: {"title": "Login crash"} Done.'' =
     Some (JObject [(''title'', JString ''Login crash'')])\<close>
    by code_simp
  have c: \<open>CHR ''}'' \<notin> set ''The title is {unfinished''\<close>
    by simp
  note w1 = candidate_is_spec_extract_given_title_text
    [of \<open>''Here is the ticket: {"title": "Login crash"} Done.''\<close> "JObject []" "''x''"]
  note w2 = candidate_is_spec_extract_given_title_text
    [of \<open>''The title is {unfinished''\<close> "JObject [(''title'', JString ''kept'')]"
        "''Quality_Critic''"]
  from w1 a b have 1: \<open>candidate ''Here is the ticket: {"title": "Login crash"} Done.'' =
     Some (JObject [(''title'', JString ''Login crash'')])\<close> by simp
  from w2 c have 2: \<open>candidate ''The title is {unfinished'' = None\<close> by blast
  from w2 2 have 3: \<open>scan_message (JObject [(''title'', JString ''kept'')])
         (TextMessage ''Quality_Critic'' ''The title is {unfinished'') =
       JObject [(''title'', JString ''kept'')]\<close> by simp
  from 1 a c 2 3 show ?thesis by blast
qed


section \<open>The turn cap\<close>

text \<open>
  Claim C6. In every run of the deliberation scheduler the number of turns taken never
  exceeds the configured cap, whether or not approval is reached: the counter of a run
  started at zero ends at most at \<open>max_turns\<close>, one entry is appended per turn, and
  \<open>run_stream\<close> yields at most the task, \<open>max_turns\<close> stage outputs and the task result.
  The source configures the cap as 6.
\<close>

theorem turn_cap:
  "turns_taken (deliberate participants token max_turns ctx 0) \<le> max_turns
   \<and> length (conversation (deliberate participants token max_turns ctx 0)) =
       length ctx + turns_taken (deliberate participants token max_turns ctx 0)
   \<and> length (fst (run_stream participants token max_turns task)) \<le> max_turns + 2"
proof -
  have ok: "deliberation_ok token max_turns c 0 (deliberate participants token max_turns c 0)"
    for c by (rule deliberate_ok)
  have 1: "turns_taken (deliberate participants token max_turns c 0) \<le> max_turns" for c
    using ok [of c] by (simp add: deliberation_ok_def)
  have 2: "length (conversation (deliberate participants token max_turns c 0)) =
       length c + turns_taken (deliberate participants token max_turns c 0)" for c
    using ok [of c] by (simp add: deliberation_ok_def)
  have 3: "length (fst (run_stream participants token max_turns task)) \<le> max_turns + 2"
    using 1 [of "[TextMessage ''user'' task]"] 2 [of "[TextMessage ''user'' task]"]
    by (simp add: run_stream_def Let_def split: option.splits)
  from 1 2 3 show ?thesis by blast
qed

theorem turn_cap_witness:
  "turns_taken (deliberate (get_agent_team (scripted six_turns)) ''APPROVED'' 6
      [TextMessage ''user'' (task_msg ''R2'' ''Too many ads'')] 0) \<le> 6
   \<and> turns_taken (deliberate (get_agent_team (scripted six_turns)) ''APPROVED'' 6
      [TextMessage ''user'' (task_msg ''R2'' ''Too many ads'')] 0) = 6
   \<and> state (deliberate (get_agent_team (scripted six_turns)) ''APPROVED'' 6
      [TextMessage ''user'' (task_msg ''R2'' ''Too many ads'')] 0) = Exhausted
   \<and> turns_taken (deliberate (get_agent_team (scripted r1_script)) ''APPROVED'' 6
      [TextMessage ''user'' (task_msg ''R1'' ''App crashes on login'')] 0) = 5"
proof -
  have a: "turns_taken (deliberate (get_agent_team (scripted six_turns)) ''APPROVED'' 6
      [TextMessage ''user'' (task_msg ''R2'' ''Too many ads'')] 0) = 6"
    by code_simp
  have b: "state (deliberate (get_agent_team (scripted six_turns)) ''APPROVED'' 6
      [TextMessage ''user'' (task_msg ''R2'' ''Too many ads'')] 0) = Exhausted"
    by code_simp
  have c: "turns_taken (deliberate (get_agent_team (scripted r1_script)) ''APPROVED'' 6
      [TextMessage ''user'' (task_msg ''R1'' ''App crashes on login'')] 0) = 5"
    by code_simp
  from turn_cap [of "get_agent_team (scripted six_turns)" "''APPROVED''" 6
      "[TextMessage ''user'' (task_msg ''R2'' ''Too many ads'')]"]
  have "turns_taken (deliberate (get_agent_team (scripted six_turns)) ''APPROVED'' 6
      [TextMessage ''user'' (task_msg ''R2'' ''Too many ads'')] 0) \<le> 6"
    by (rule conjunct1)
  with a b c show ?thesis by (intro conjI)
qed

section \<open>Approval ends the run\<close>

text \<open>
  Claim C7. If the stage output of turn \<open>t + 1\<close> (the entry \<open>t\<close> places after the
  initial context) contains the termination token, then the run took exactly \<open>t + 1\<close>
  turns and ended \<open>Approved\<close>: no further stage is invoked.
\<close>

theorem approval_halts:
  assumes "d = deliberate participants token max_turns ctx 0"
    and "t < turns_taken d"
    and "conversation d ! (length ctx + t) = TextMessage n content"
    and "py_in token content"
  shows "turns_taken d = t + 1 \<and> state d = Approved"
proof -
  have ok: "deliberation_ok token max_turns ctx 0 d"
    unfolding assms(1) by (rule deliberate_ok)
  then have len: "length (conversation d) = length ctx + turns_taken d"
    by (simp add: deliberation_ok_def)
  have "\<not> Suc (length ctx + t) < length (conversation d)"
  proof
    assume "Suc (length ctx + t) < length (conversation d)"
    with ok assms(3) have "\<not> py_in token content"
      unfolding deliberation_ok_def by (metis le_add1)
    with assms(4) show False by simp
  qed
  with len assms(2) have last: "Suc (length ctx + t) = length (conversation d)" by simp
  with len have 1: "turns_taken d = t + 1" by simp
  from ok last assms(3,4) have 2: "state d = Approved"
    unfolding deliberation_ok_def by (metis le_add1)
  from 1 2 show ?thesis by blast
qed

theorem approval_halts_witness:
  "conversation (deliberate (get_agent_team (scripted r1_script)) ''APPROVED'' 6
      [TextMessage ''user'' (task_msg ''R1'' ''App crashes on login'')] 0) ! (1 + 4) =
     TextMessage ''Quality_Critic'' ''APPROVED''
   \<and> py_in ''APPROVED'' ''APPROVED''
   \<and> turns_taken (deliberate (get_agent_team (scripted r1_script)) ''APPROVED'' 6
      [TextMessage ''user'' (task_msg ''R1'' ''App crashes on login'')] 0) = 4 + 1
   \<and> state (deliberate (get_agent_team (scripted r1_script)) ''APPROVED'' 6
      [TextMessage ''user'' (task_msg ''R1'' ''App crashes on login'')] 0) = Approved"
proof -
  define d where "d = deliberate (get_agent_team (scripted r1_script)) ''APPROVED'' 6
      [TextMessage ''user'' (task_msg ''R1'' ''App crashes on login'')] 0"
  have a: "4 < turns_taken d" unfolding d_def by code_simp
  have b: "conversation d ! (length [TextMessage ''user'' (task_msg ''R1'' ''App crashes on login'')] + 4)
             = TextMessage ''Quality_Critic'' ''APPROVED''"
    unfolding d_def by code_simp
  have c: "py_in ''APPROVED'' ''APPROVED''" by code_simp
  from approval_halts [OF d_def a b c] b c show ?thesis
    unfolding d_def by simp
qed


section \<open>One ticket per item\<close>

text \<open>
  Claim C1. For every input sequence of items, the batch loop of \<open>main\<close> (the
  specification's \<open>run_all\<close>) returns, whatever the backend does, exactly one ticket
  per item, in the order of the items: the list has the length of the input and its
  \<open>source_id\<close>, \<open>source_type\<close> and \<open>ticket_id\<close> columns are those of the items.
\<close>

theorem one_ticket_per_item:
  "\<exists>tickets. run_all clients 0 items = Some tickets
     \<and> length tickets = length items
     \<and> map source_id tickets = map item_id items
     \<and> map source_type tickets = map item_type items
     \<and> map ticket_id tickets = map (\<lambda>it. ''TKT-'' @ item_id it) items"
  by (rule run_all_columns)

theorem one_ticket_per_item_witness:
  "\<exists>tickets.
      run_all (\<lambda>i. if i = 0 then scripted r1_script else scripted six_turns) 0
        [item_R1, item_E7] = Some tickets
      \<and> length tickets = 2
      \<and> map source_id tickets = [''R1'', ''E7'']
      \<and> map source_type tickets = [''Review'', ''Email'']
      \<and> map ticket_id tickets = [''TKT-R1'', ''TKT-E7'']"
proof -
  have l: "length [item_R1, item_E7] = 2" by simp
  have a: "map item_id [item_R1, item_E7] = [''R1'', ''E7'']"
    by (simp add: item_R1_def item_E7_def)
  have b: "map item_type [item_R1, item_E7] = [''Review'', ''Email'']"
    by (simp add: item_R1_def item_E7_def)
  have c: "map (\<lambda>it. ''TKT-'' @ item_id it) [item_R1, item_E7] = [''TKT-R1'', ''TKT-E7'']"
    by (simp add: item_R1_def item_E7_def)
  show ?thesis
    using one_ticket_per_item
      [of "\<lambda>i. if i = 0 then scripted r1_script else scripted six_turns" "[item_R1, item_E7]"]
    unfolding l a b c .
qed

section \<open>A generation error\<close>

text \<open>
  Claim C5, as stated: a \<open>GenerationError\<close> raised at any stage produces the fallback
  record for that item. It fails when a candidate was accepted before the error: the
  outer \<open>try\<close> catches the error after the loop has assigned \<open>final_json\<close>, and the
  candidate is returned.
\<close>

theorem generation_error_fallback_counterexample:
  "snd (run_stream (get_agent_team (scripted failing_script)) ''APPROVED'' 6
          (task_msg ''R1'' ''App crashes on login'')) = Some (GenerationError ''timeout'')
   \<and> process_single_item (scripted failing_script) ''R1'' ''Review'' ''App crashes on login'' =
       JObject [(''title'', JString ''Login crash''), (''category'', JString ''Bug''),
                (''priority'', JString ''High'')]
   \<and> process_single_item (scripted failing_script) ''R1'' ''Review'' ''App crashes on login'' \<noteq>
       fallback ''R1''"
  by code_simp

text \<open>
  Claim C5, amended: a \<open>GenerationError\<close> raised during an item's run ends that run;
  the item's record is built from the last candidate accepted before the error, and from
  the fallback when there was none; and the ticket of every other item is the same as
  under a backend that answers differently during that item's run only.
\<close>

theorem generation_error_contained:
  assumes "k < length items"
    and "snd (run_stream (get_agent_team (clients k)) ''APPROVED'' 6
                (task_msg (item_id (items ! k)) (item_text (items ! k)))) = Some e"
    and "\<forall>j. j \<noteq> k \<longrightarrow> clients' j = clients j"
  shows "\<exists>tickets tickets'.
           run_all clients 0 items = Some tickets \<and> run_all clients' 0 items = Some tickets'
           \<and> length tickets = length items \<and> length tickets' = length items
           \<and> (\<forall>j<length items. j \<noteq> k \<longrightarrow> tickets' ! j = tickets ! j)
           \<and> make_ticket (items ! k)
                (case List.map_filter message_candidate
                        (fst (run_stream (get_agent_team (clients k)) ''APPROVED'' 6
                                (task_msg (item_id (items ! k)) (item_text (items ! k))))) of
                   [] \<Rightarrow> fallback (item_id (items ! k))
                 | c # cs \<Rightarrow> last (c # cs)) = Some (tickets ! k)"
proof -
  from run_all_nth [of clients 0 items] obtain ts where
    ts: "run_all clients 0 items = Some ts" "length ts = length items"
      "\<forall>j<length items.
              make_ticket (items ! j)
                (process_single_item (clients (0 + j)) (item_id (items ! j))
                   (item_type (items ! j)) (item_text (items ! j))) = Some (ts ! j)"
    by blast
  from run_all_nth [of clients' 0 items] obtain ts' where
    ts': "run_all clients' 0 items = Some ts'" "length ts' = length items"
      "\<forall>j<length items.
              make_ticket (items ! j)
                (process_single_item (clients' (0 + j)) (item_id (items ! j))
                   (item_type (items ! j)) (item_text (items ! j))) = Some (ts' ! j)"
    by blast
  have same: "ts' ! j = ts ! j" if "j < length items" "j \<noteq> k" for j
  proof -
    from that assms(3) have "clients' j = clients j" by blast
    with ts(3) ts'(3) that(1) have "Some (ts' ! j) = Some (ts ! j)" by (metis add_0)
    then show ?thesis by simp
  qed
  have own: "make_ticket (items ! k)
                (case List.map_filter message_candidate
                        (fst (run_stream (get_agent_team (clients k)) ''APPROVED'' 6
                                (task_msg (item_id (items ! k)) (item_text (items ! k))))) of
                   [] \<Rightarrow> fallback (item_id (items ! k))
                 | c # cs \<Rightarrow> last (c # cs)) = Some (ts ! k)"
    using ts(3) assms(1) by (simp add: process_single_item_eq)
  from ts(1,2) ts'(1,2) same own show ?thesis by blast
qed

theorem generation_error_contained_witness:
  "the (run_all (\<lambda>i. if i = 0 then scripted r1_script else scripted six_turns) 0
          [item_R1, item_E7]) ! 1 =
   the (run_all (\<lambda>i. if i = 0 then scripted failing_script else scripted six_turns) 0
          [item_R1, item_E7]) ! 1
   \<and> (map title (the (run_all (\<lambda>i. if i = 0 then scripted failing_script else scripted six_turns) 0
          [item_R1, item_E7]))) = [JString ''Login crash'', JString ''Error Processing E7'']
   \<and> (map title (the (run_all (\<lambda>i. if i = 0 then scripted [Inl (GenerationError ''timeout'')]
                                      else scripted six_turns) 0
          [item_R1, item_E7]))) = [JString ''Error Processing R1'', JString ''Error Processing E7'']"
proof -
  define C where "C = (\<lambda>i::nat. if i = 0 then scripted failing_script else scripted six_turns)"
  define C' where "C' = (\<lambda>i::nat. if i = 0 then scripted r1_script else scripted six_turns)"
  have h1: "0 < length [item_R1, item_E7]" by simp
  have e: "snd (run_stream (get_agent_team (scripted failing_script)) ''APPROVED'' 6
          (task_msg ''R1'' ''App crashes on login'')) = Some (GenerationError ''timeout'')"
    by code_simp
  have h2: "snd (run_stream (get_agent_team (C 0)) ''APPROVED'' 6
                (task_msg (item_id ([item_R1, item_E7] ! 0)) (item_text ([item_R1, item_E7] ! 0))))
              = Some (GenerationError ''timeout'')"
    using e by (simp add: C_def item_R1_def)
  have h3: "\<forall>j. j \<noteq> 0 \<longrightarrow> C' j = C j" by (simp add: C_def C'_def)
  from generation_error_contained [OF h1 h2 h3] obtain ts ts' where
    r: "run_all C 0 [item_R1, item_E7] = Some ts" "run_all C' 0 [item_R1, item_E7] = Some ts'"
       "\<forall>j<length [item_R1, item_E7]. j \<noteq> 0 \<longrightarrow> ts' ! j = ts ! j"
    by blast
  from r(3) have "ts' ! 1 = ts ! 1" by simp
  with r(1,2) have 1: "the (run_all C' 0 [item_R1, item_E7]) ! 1 = the (run_all C 0 [item_R1, item_E7]) ! 1"
    by simp
  have 2: "map title (the (run_all C 0 [item_R1, item_E7]))
             = [JString ''Login crash'', JString ''Error Processing E7'']"
    unfolding C_def by code_simp
  have 3: "(map title (the (run_all (\<lambda>i. if i = 0 then scripted [Inl (GenerationError ''timeout'')]
                                      else scripted six_turns) 0
          [item_R1, item_E7]))) = [JString ''Error Processing R1'', JString ''Error Processing E7'']"
    by code_simp
  from 1 2 3 show ?thesis unfolding C_def C'_def by (intro conjI)
qed

section \<open>Category and priority\<close>

text \<open>
  Claim C9, as stated: the category of every ticket is one of Bug, FeatureRequest,
  Praise, Complaint, Spam, Error and its priority one of Critical, High, Medium, Low. It
  fails: the source copies both fields from the accepted object without any check, and
  puts \<open>Uncategorized\<close> where the object has no category.
\<close>

theorem ticket_enums_counterexample:
  "run_all (\<lambda>i. scripted urgent_script) 0
     [\<lparr>item_id = ''R9'', item_type = ''Review'', item_text = ''Please add dark mode''\<rparr>] =
     Some [\<lparr>ticket_id = ''TKT-R9'', title = JString ''Dark mode'',
            category = JString ''Uncategorized'', priority = JString ''Urgent'',
            details = JObject [], source_id = ''R9'', source_type = ''Review''\<rparr>]
   \<and> JString ''Uncategorized'' \<notin>
       {JString ''Bug'', JString ''FeatureRequest'', JString ''Praise'', JString ''Complaint'',
        JString ''Spam'', JString ''Error''}
   \<and> JString ''Urgent'' \<notin>
       {JString ''Critical'', JString ''High'', JString ''Medium'', JString ''Low''}"
  by code_simp

text \<open>
  Claim C9, amended: the result for every item is an object; the category of its ticket
  is the object's \<open>category\<close> entry, or \<open>Uncategorized\<close> when it has none, and the
  priority its \<open>priority\<close> entry, or \<open>Low\<close>; when no candidate was accepted they are
  \<open>Error\<close> and \<open>Low\<close>, those of the fallback record.
\<close>

theorem ticket_category_priority:
  assumes "run_all clients 0 items = Some tickets" and "k < length items"
  shows "\<exists>d. process_single_item (clients k) (item_id (items ! k)) (item_type (items ! k))
               (item_text (items ! k)) = JObject d
           \<and> category (tickets ! k) =
               (case map_of d ''category'' of None \<Rightarrow> JString ''Uncategorized'' | Some v \<Rightarrow> v)
           \<and> priority (tickets ! k) =
               (case map_of d ''priority'' of None \<Rightarrow> JString ''Low'' | Some v \<Rightarrow> v)
           \<and> (List.map_filter message_candidate
                 (fst (run_stream (get_agent_team (clients k)) ''APPROVED'' 6
                         (task_msg (item_id (items ! k)) (item_text (items ! k))))) = []
               \<longrightarrow> category (tickets ! k) = JString ''Error''
                   \<and> priority (tickets ! k) = JString ''Low'')"
proof -
  obtain d where d: "process_single_item (clients k) (item_id (items ! k)) (item_type (items ! k))
               (item_text (items ! k)) = JObject d"
    using process_single_item_object by blast
  from run_all_nth [of clients 0 items] assms
  have mk: "make_ticket (items ! k) (JObject d) = Some (tickets ! k)"
    using d by auto
  have tk: "tickets ! k =
     \<lparr>ticket_id = ''TKT-'' @ item_id (items ! k),
           title = (case map_of d ''title'' of None \<Rightarrow> JString ''Untitled'' | Some v \<Rightarrow> v),
           category = (case map_of d ''category'' of None \<Rightarrow> JString ''Uncategorized'' | Some v \<Rightarrow> v),
           priority = (case map_of d ''priority'' of None \<Rightarrow> JString ''Low'' | Some v \<Rightarrow> v),
           details = (case map_of d ''details'' of None \<Rightarrow> JObject [] | Some v \<Rightarrow> v),
           source_id = item_id (items ! k), source_type = item_type (items ! k)\<rparr>"
    using mk unfolding make_ticket_object by simp
  have c: "category (tickets ! k) =
               (case map_of d ''category'' of None \<Rightarrow> JString ''Uncategorized'' | Some v \<Rightarrow> v)"
    by (subst tk) simp
  have p: "priority (tickets ! k) =
               (case map_of d ''priority'' of None \<Rightarrow> JString ''Low'' | Some v \<Rightarrow> v)"
    by (subst tk) simp
  have f: "category (tickets ! k) = JString ''Error'' \<and> priority (tickets ! k) = JString ''Low''"
    if "List.map_filter message_candidate
                 (fst (run_stream (get_agent_team (clients k)) ''APPROVED'' 6
                         (task_msg (item_id (items ! k)) (item_text (items ! k))))) = []"
  proof -
    from that d have "JObject d = fallback (item_id (items ! k))"
      by (simp add: process_single_item_eq)
    then show ?thesis using c p by (simp add: fallback_def)
  qed
  from d c p f show ?thesis by blast
qed

theorem ticket_category_priority_witness:
  "category (the (run_all (\<lambda>i. if i = 0 then scripted r1_script else scripted six_turns) 0
                    [item_R1, item_E7]) ! 0) = JString ''Bug''
   \<and> priority (the (run_all (\<lambda>i. if i = 0 then scripted r1_script else scripted six_turns) 0
                    [item_R1, item_E7]) ! 0) = JString ''High''
   \<and> category (the (run_all (\<lambda>i. if i = 0 then scripted r1_script else scripted six_turns) 0
                    [item_R1, item_E7]) ! 1) = JString ''Error''
   \<and> priority (the (run_all (\<lambda>i. if i = 0 then scripted r1_script else scripted six_turns) 0
                    [item_R1, item_E7]) ! 1) = JString ''Low''"
proof -
  define C where "C = (\<lambda>i::nat. if i = 0 then scripted r1_script else scripted six_turns)"
  obtain ts where ts: "run_all C 0 [item_R1, item_E7] = Some ts"
    using run_all_total by blast
  have p0: "process_single_item (C 0) (item_id ([item_R1, item_E7] ! 0))
              (item_type ([item_R1, item_E7] ! 0)) (item_text ([item_R1, item_E7] ! 0)) =
            JObject [(''title'', JString ''Login crash''), (''category'', JString ''Bug''),
                     (''priority'', JString ''High''),
                     (''details'', JObject [(''steps'', JArray [JString ''open app'', JString ''tap login''])])]"
    unfolding C_def item_R1_def by code_simp
  have n1: "List.map_filter message_candidate
                 (fst (run_stream (get_agent_team (C 1)) ''APPROVED'' 6
                         (task_msg (item_id ([item_R1, item_E7] ! 1))
                            (item_text ([item_R1, item_E7] ! 1))))) = []"
    unfolding C_def item_E7_def by code_simp
  from ticket_category_priority [OF ts, of 0] p0
  have 0: "category (ts ! 0) = JString ''Bug'' \<and> priority (ts ! 0) = JString ''High''"
    by auto
  from ticket_category_priority [OF ts, of 1] n1
  have 1: "category (ts ! 1) = JString ''Error'' \<and> priority (ts ! 1) = JString ''Low''"
    by auto
  from 0 1 ts show ?thesis unfolding C_def by simp
qed


section \<open>The two sources\<close>

text \<open>
  Claim C8, as stated: a source-level data problem never halts the batch. It fails when
  a file cannot be read: \<open>read_csv\<close> raises, the \<open>except\<close> of lines 185 to 188 prints
  and returns, and no item of the other source is processed, although that source alone
  would have given a ticket.
\<close>

theorem unreadable_source_halts_counterexample:
  "main (\<lambda>table. None) (\<lambda>i. scripted six_turns) (ReadError ''Error tokenizing data'')
       (DataFrame [''email_id'', ''body''] [email_E7]) = LoadFailed
   \<and> main (\<lambda>table. None) (\<lambda>i. scripted six_turns)
       (DataFrame [''review_id'', ''review_text''] [])
       (DataFrame [''email_id'', ''body''] [email_E7]) =
       Completed []
         [\<lparr>ticket_id = ''TKT-E7'', title = JString ''Error Processing E7'',
            category = JString ''Error'', priority = JString ''Low'',
            details = JObject [(''error'', JString ''Agents did not produce valid JSON'')],
            source_id = ''E7'', source_type = ''Email''\<rparr>]
         [GeneratedTickets
            [\<lparr>ticket_id = ''TKT-E7'', title = JString ''Error Processing E7'',
               category = JString ''Error'', priority = JString ''Low'',
               details = JObject [(''error'', JString ''Agents did not produce valid JSON'')],
               source_id = ''E7'', source_type = ''Email''\<rparr>],
          Metrics [(''total_tickets'', 1)],
          ProcessingLog [''timestamp'', ''action'']]"
  by code_simp

text \<open>
  Claim C8, amended: when both files are read, a source that lacks a required column
  (among its stripped column names) is skipped in its entirety with a warning, and the
  batch loop runs over the items of the other source, in order, before the results are
  written; when either file cannot be read, the run halts before any item is processed.
\<close>

theorem missing_columns_skip_source:
  "main to_csv clients (ReadError e) emails_csv = LoadFailed
   \<and> main to_csv clients reviews_csv (ReadError e) = LoadFailed
   \<and> (\<exists>tickets.
      main to_csv clients (DataFrame review_columns reviews) (DataFrame email_columns emails) =
        (case save_results to_csv tickets of
           (written, Some err) \<Rightarrow>
             SaveFailed
               ((if ''review_id'' \<in> set review_columns \<and> ''review_text'' \<in> set review_columns then [] else [ReviewsMissingColumns])
                @ (if ''email_id'' \<in> set email_columns \<and> ''body'' \<in> set email_columns then [] else [EmailsMissingColumns]))
               tickets written err
         | (written, None) \<Rightarrow>
             Completed
               ((if ''review_id'' \<in> set review_columns \<and> ''review_text'' \<in> set review_columns then [] else [ReviewsMissingColumns])
                @ (if ''email_id'' \<in> set email_columns \<and> ''body'' \<in> set email_columns then [] else [EmailsMissingColumns]))
               tickets written)
      \<and> map source_id tickets =
          (if ''review_id'' \<in> set review_columns \<and> ''review_text'' \<in> set review_columns then map (\<lambda>r. r ''review_id'') reviews else [])
          @ (if ''email_id'' \<in> set email_columns \<and> ''body'' \<in> set email_columns then map (\<lambda>e. e ''email_id'') emails else [])
      \<and> map source_type tickets =
          (if ''review_id'' \<in> set review_columns \<and> ''review_text'' \<in> set review_columns then map (\<lambda>r. ''Review'') reviews else [])
          @ (if ''email_id'' \<in> set email_columns \<and> ''body'' \<in> set email_columns then map (\<lambda>e. ''Email'') emails else []))"
proof -
  have r1: "main to_csv clients (ReadError e) emails_csv = LoadFailed"
    by (simp add: main_def)
  have r2: "main to_csv clients reviews_csv (ReadError e) = LoadFailed"
    by (cases reviews_csv) (simp_all add: main_def)
  obtain items warnings where p:
    "prepare_items review_columns reviews email_columns emails = (items, warnings)"
    by (cases "prepare_items review_columns reviews email_columns emails")
  obtain tickets where t: "run_all clients 0 items = Some tickets"
    "map source_id tickets = map item_id items" "map source_type tickets = map item_type items"
    using run_all_columns by blast
  from p have w: "warnings =
          (if ''review_id'' \<in> set review_columns \<and> ''review_text'' \<in> set review_columns then [] else [ReviewsMissingColumns])
           @ (if ''email_id'' \<in> set email_columns \<and> ''body'' \<in> set email_columns then [] else [EmailsMissingColumns])"
    by (auto simp: prepare_items_def split: if_splits)
  have m: "main to_csv clients (DataFrame review_columns reviews) (DataFrame email_columns emails)
             = (case save_results to_csv tickets of
                  (written, Some err) \<Rightarrow> SaveFailed warnings tickets written err
                | (written, None) \<Rightarrow> Completed warnings tickets written)"
    using p t(1) by (simp add: main_def)
  from p have i1: "map item_id items =
          (if ''review_id'' \<in> set review_columns \<and> ''review_text'' \<in> set review_columns then map (\<lambda>r. r ''review_id'') reviews else [])
          @ (if ''email_id'' \<in> set email_columns \<and> ''body'' \<in> set email_columns then map (\<lambda>e. e ''email_id'') emails else [])"
    by (auto simp: prepare_items_def comp_def split: if_splits)
  from p have i2: "map item_type items =
          (if ''review_id'' \<in> set review_columns \<and> ''review_text'' \<in> set review_columns then map (\<lambda>r. ''Review'') reviews else [])
          @ (if ''email_id'' \<in> set email_columns \<and> ''body'' \<in> set email_columns then map (\<lambda>e. ''Email'') emails else [])"
    by (auto simp: prepare_items_def comp_def split: if_splits)
  have "(\<exists>tickets.
      main to_csv clients (DataFrame review_columns reviews) (DataFrame email_columns emails) =
        (case save_results to_csv tickets of
           (written, Some err) \<Rightarrow>
             SaveFailed
               ((if ''review_id'' \<in> set review_columns \<and> ''review_text'' \<in> set review_columns then [] else [ReviewsMissingColumns])
                @ (if ''email_id'' \<in> set email_columns \<and> ''body'' \<in> set email_columns then [] else [EmailsMissingColumns]))
               tickets written err
         | (written, None) \<Rightarrow>
             Completed
               ((if ''review_id'' \<in> set review_columns \<and> ''review_text'' \<in> set review_columns then [] else [ReviewsMissingColumns])
                @ (if ''email_id'' \<in> set email_columns \<and> ''body'' \<in> set email_columns then [] else [EmailsMissingColumns]))
               tickets written)
      \<and> map source_id tickets =
          (if ''review_id'' \<in> set review_columns \<and> ''review_text'' \<in> set review_columns then map (\<lambda>r. r ''review_id'') reviews else [])
          @ (if ''email_id'' \<in> set email_columns \<and> ''body'' \<in> set email_columns then map (\<lambda>e. e ''email_id'') emails else [])
      \<and> map source_type tickets =
          (if ''review_id'' \<in> set review_columns \<and> ''review_text'' \<in> set review_columns then map (\<lambda>r. ''Review'') reviews else [])
          @ (if ''email_id'' \<in> set email_columns \<and> ''body'' \<in> set email_columns then map (\<lambda>e. ''Email'') emails else []))"
    using m [unfolded w] i1 i2 t(2,3) by (intro exI [of _ tickets]) simp
  with r1 r2 show ?thesis by blast
qed

theorem missing_columns_skip_source_witness:
  "\<exists>tickets.
      main (\<lambda>table. None) (\<lambda>i. scripted six_turns)
        (DataFrame [''id'', ''review_text''] [review_R1])
        (DataFrame [''email_id'', ''body''] [email_E7]) =
        Completed [ReviewsMissingColumns] tickets
          [GeneratedTickets tickets, Metrics [(''total_tickets'', length tickets)],
           ProcessingLog [''timestamp'', ''action'']]
      \<and> map source_id tickets = [''E7'']
      \<and> map source_type tickets = [''Email'']"
proof -
  have a: "(''review_id'' \<in> set [''id'', ''review_text'']
            \<and> ''review_text'' \<in> set [''id'', ''review_text'']) = False"
    by simp
  have b: "(''email_id'' \<in> set [''email_id'', ''body'']
            \<and> ''body'' \<in> set [''email_id'', ''body'']) = True"
    by simp
  have c: "map (\<lambda>e. e ''email_id'') [email_E7] = [''E7'']"
    by (simp add: email_E7_def)
  have s: "save_results (\<lambda>table. None) tickets =
             ([GeneratedTickets tickets, Metrics [(''total_tickets'', length tickets)],
               ProcessingLog [''timestamp'', ''action'']], None)" for tickets
    by (simp add: save_results_def)
  show ?thesis
    using missing_columns_skip_source
      [of "\<lambda>table. None" "\<lambda>i. scripted six_turns" _ _ _ "[''id'', ''review_text'']" "[review_R1]"
          "[''email_id'', ''body'']" "[email_E7]", THEN conjunct2, THEN conjunct2]
    unfolding a b c s by simp
qed

section \<open>Feedback text that is itself a ticket\<close>

text \<open>
  Claim C10. The scan also runs on the initial task message, which embeds the item's raw
  text. So when the text of an item is itself a JSON object with a \<open>title\<close> field
  (written from \<open>{\<close> to \<open>}\<close>, with the word \<open>title\<close> in it), its id has no \<open>{\<close>, and
  no later item of the stream holds a parseable object with a \<open>title\<close> field, the task
  message yields that object as a candidate and \<open>process_single_item\<close> returns it.
\<close>

theorem feedback_text_accepted:
  assumes "json_loads text = Some (JObject d)"
    and "map_of d ''title'' \<noteq> None"
    and "py_in ''title'' text"
    and "text = CHR ''{'' # body"
    and "last text = CHR ''}''"
    and "CHR ''{'' \<notin> set row_id"
    and "\<forall>m \<in> set (tl (fst (run_stream (get_agent_team model_client) ''APPROVED'' 6
                                 (task_msg row_id text)))).
           case str_content m of None \<Rightarrow> True | Some content \<Rightarrow> spec_extract content = None"
  shows "candidate (task_msg row_id text) = Some (JObject d)
         \<and> process_single_item model_client row_id stype text = JObject d"
proof -
  have b: "between (task_msg row_id text) = text"
    using assms(4,5,6) by (rule between_task_msg)
  have o: "CHR ''{'' \<in> set (task_msg row_id text)"
    using assms(4) by (simp add: task_msg_def)
  have "text \<noteq> []" using assms(4) by simp
  then have "last text \<in> set text" by simp
  then have c: "CHR ''}'' \<in> set (task_msg row_id text)"
    using assms(5) by (simp add: task_msg_def)
  have ti: "py_in ''title'' (task_msg row_id text)"
  proof -
    have "task_msg row_id text = (''\<newline>    PROCESS THIS FEEDBACK (ID: '' @ row_id @ ''): '' @ [CHR 0x22])
            @ (text @ ([CHR 0x22]
     @ ''\<newline>    \<newline>    Pipeline:''
     @ ''\<newline>    1. Classifier: Categorize.''
     @ ''\<newline>    2. Bug_Analyst & Feature_Extractor: Extract details.''
     @ ''\<newline>    3. Ticket_Creator: Draft JSON.''
     @ ''\<newline>    4. Quality_Critic: Review.''
     @ ''\<newline>    \<newline>    Ticket_Creator: Output final JSON before approval.\<newline>    ''))"
      by (simp add: task_msg_def)
    then show ?thesis
      using assms(3) py_in_append_left py_in_append_right by metis
  qed
  have cand: "candidate (task_msg row_id text) = Some (JObject d)"
    using ti o c b assms(1,2) by (simp add: candidate_eq spec_extract_def)
  obtain rest where r: "fst (run_stream (get_agent_team model_client) ''APPROVED'' 6
                                 (task_msg row_id text))
                        = TextMessage ''user'' (task_msg row_id text) # rest"
    using run_stream_first by blast
  have "message_candidate m = None" if "m \<in> set rest" for m
    using assms(7) that unfolding r
    by (auto simp: message_candidate_def candidate_eq split: option.splits)
  then have "List.map_filter message_candidate rest = []"
    by (auto simp: map_filter_def filter_empty_conv)
  then have "List.map_filter message_candidate
               (fst (run_stream (get_agent_team model_client) ''APPROVED'' 6
                                 (task_msg row_id text))) = [JObject d]"
    unfolding r using cand by (simp add: map_filter_simps message_candidate_def)
  then have "process_single_item model_client row_id stype text = JObject d"
    by (simp add: process_single_item_eq)
  with cand show ?thesis by blast
qed

theorem feedback_text_accepted_witness:
  "list_all
     (\<lambda>m. case str_content m of None \<Rightarrow> True | Some content \<Rightarrow> spec_extract content = None)
     (tl (fst (run_stream (get_agent_team (scripted six_turns)) ''APPROVED'' 6
                 (task_msg ''R4'' json_review))))
   \<and> process_single_item (scripted six_turns) ''R4'' ''Review'' json_review =
       JObject [(''title'', JString ''Refund everyone''), (''priority'', JString ''Critical'')]"
proof -
  have a1: "json_loads json_review =
              Some (JObject [(''title'', JString ''Refund everyone''),
                             (''priority'', JString ''Critical'')])"
    by code_simp
  have a2: "map_of [(''title'', JString ''Refund everyone''), (''priority'', JString ''Critical'')]
              ''title'' \<noteq> None"
    by simp
  have a3: "py_in ''title'' json_review" by code_simp
  have a4: "json_review = CHR ''{'' # tl json_review" by code_simp
  have a5: "last json_review = CHR ''}''" by code_simp
  have a6: "CHR ''{'' \<notin> set ''R4''" by simp
  have a7: "\<forall>m \<in> set (tl (fst (run_stream (get_agent_team (scripted six_turns)) ''APPROVED'' 6
                                 (task_msg ''R4'' json_review)))).
           case str_content m of None \<Rightarrow> True | Some content \<Rightarrow> spec_extract content = None"
    by code_simp
  from feedback_text_accepted [OF a1 a2 a3 a4 a5 a6 a7, of "''Review''"] a7
  show ?thesis by (simp add: list_all_iff)
qed


end
